theory Spec2Isabelle
  imports Main "HOL-Library.Sublist"
begin

section \<open>Python strings\<close>

text \<open>
  A Python \<open>str\<close> is a sequence of Unicode code points; a code point is modelled as a
  natural number (below \<open>0x110000\<close> in every real string). String literals of the
  source are written with \<open>lit\<close>.
\<close>

type_synonym pystr = "nat list"

definition lit :: "string \<Rightarrow> pystr" where
  "lit s = map of_char s"

text \<open>\<open>sub in s\<close> for strings: \<open>sub\<close> occurs at some position of \<open>s\<close>.\<close>

fun py_contains :: "pystr \<Rightarrow> pystr \<Rightarrow> bool" where
  "py_contains sub [] = (sub = [])"
| "py_contains sub (x # xs) = (take (length sub) (x # xs) = sub \<or> py_contains sub xs)"

datatype py_exc =
    SystemExit nat
  | JSONDecodeError
  | KeyError
  | TypeError
  | ValueError
  | IndexError
  | UnicodeEncodeError
  | PlaywrightError

text \<open>
  \<open>s.split(sep)\<close>: the pieces of \<open>s\<close> between the occurrences of \<open>sep\<close>, found from
  left to right without overlap. An empty separator raises \<open>ValueError\<close>.
\<close>

function py_split_from :: "pystr \<Rightarrow> pystr \<Rightarrow> pystr \<Rightarrow> pystr list" where
  "py_split_from sep acc [] = [rev acc]"
| "py_split_from sep acc (x # xs) =
     (if sep \<noteq> [] \<and> take (length sep) (x # xs) = sep
      then rev acc # py_split_from sep [] (drop (length sep) (x # xs))
      else py_split_from sep (x # acc) xs)"
  by pat_completeness auto
termination
  by (relation "measure (\<lambda>(sep, acc, s). length s)") auto

definition py_split :: "pystr \<Rightarrow> pystr \<Rightarrow> py_exc + pystr list" where
  "py_split sep s = (if sep = [] then Inl ValueError else Inr (py_split_from sep [] s))"

text \<open>\<open>xs[i]\<close> for a non-negative index: \<open>IndexError\<close> out of range.\<close>

definition py_index :: "'a list \<Rightarrow> nat \<Rightarrow> py_exc + 'a" where
  "py_index xs i = (if i < length xs then Inr (xs ! i) else Inl IndexError)"

text \<open>\<open>s.strip()\<close> removes leading and trailing whitespace (\<open>str.isspace\<close>).\<close>

definition py_isspace :: "nat \<Rightarrow> bool" where
  "py_isspace c \<longleftrightarrow>
     (9 \<le> c \<and> c \<le> 13) \<or> (28 \<le> c \<and> c \<le> 32) \<or> c = 133 \<or> c = 160 \<or> c = 5760 \<or>
     (8192 \<le> c \<and> c \<le> 8202) \<or> c = 8232 \<or> c = 8233 \<or> c = 8239 \<or> c = 8287 \<or> c = 12288"

definition py_strip :: "pystr \<Rightarrow> pystr" where
  "py_strip s = rev (dropWhile py_isspace (rev (dropWhile py_isspace s)))"

section \<open>Job records and the extractor\<close>

record job =
  job_id :: pystr
  job_title :: pystr
  job_pay :: pystr
  job_hired :: pystr
  job_url :: pystr
  job_found_at :: pystr

text \<open>
  The identifier of a listing, lines 76-77 of \<open>scrape_jobs\<close>:
  \<open>job_id = href.split('list_')[1] if 'list_' in href else href\<close>.
\<close>

definition marker :: pystr where
  "marker = lit ''list_''"

definition derive_job_id :: "pystr \<Rightarrow> py_exc + pystr" where
  "derive_job_id href =
     (if py_contains marker href
      then (case py_split marker href of
              Inl e \<Rightarrow> Inl e
            | Inr parts \<Rightarrow> py_index parts 1)
      else Inr href)"

text \<open>
  What the browser hands back for one listing element. A call into the browser either
  raises, with the text of its exception, or returns; \<open>get_attribute\<close> and
  \<open>query_selector\<close> return \<open>None\<close> when the attribute or the child is missing. A text
  lookup is the child query followed by \<open>inner_text()\<close>. \<open>el_clock\<close> is the reading of
  \<open>datetime.now().isoformat()\<close> when the record is built.
\<close>

datatype 'a call = Raises pystr | Returns 'a

record element =
  el_href :: "pystr option call"
  el_h3 :: "pystr option call"
  el_pay :: "pystr option call"
  el_hired :: "pystr option call"
  el_clock :: pystr

text \<open>The text \<open>str(e)\<close> of the exceptions Python raises by itself in the loop.\<close>

definition message_of :: "py_exc \<Rightarrow> pystr" where
  "message_of e =
     (case e of
        IndexError \<Rightarrow> lit ''list index out of range''
      | ValueError \<Rightarrow> lit ''empty separator''
      | _ \<Rightarrow> lit ''argument of type '' @ [39] @ lit ''NoneType'' @ [39] @
             lit '' is not iterable'')"

definition text_or :: "pystr \<Rightarrow> pystr option call \<Rightarrow> pystr + pystr" where
  "text_or dflt c =
     (case c of
        Raises m \<Rightarrow> Inl m
      | Returns None \<Rightarrow> Inr dflt
      | Returns (Some t) \<Rightarrow> Inr t)"

text \<open>
  The body of the per-element \<open>try\<close> block (lines 75-98): the job record, or the text of
  the exception that the handler of line 99 receives.
\<close>

definition extract_job :: "element \<Rightarrow> pystr + job" where
  "extract_job e =
     (case el_href e of
        Raises m \<Rightarrow> Inl m
      | Returns None \<Rightarrow> Inl (message_of TypeError)
      | Returns (Some href) \<Rightarrow>
          (case derive_job_id href of
             Inl x \<Rightarrow> Inl (message_of x)
           | Inr jid \<Rightarrow>
               (case text_or (lit ''Unknown Title'') (el_h3 e) of
                  Inl m \<Rightarrow> Inl m
                | Inr title \<Rightarrow>
                    (case text_or (lit ''Pay not listed'') (el_pay e) of
                       Inl m \<Rightarrow> Inl m
                     | Inr pay \<Rightarrow>
                         (case text_or [] (el_hired e) of
                            Inl m \<Rightarrow> Inl m
                          | Inr hired \<Rightarrow>
                              Inr \<lparr>job_id = jid,
                                   job_title = py_strip title,
                                   job_pay = py_strip pay,
                                   job_hired = py_strip hired,
                                   job_url = lit ''https://work.mercor.com'' @ href,
                                   job_found_at = el_clock e\<rparr>)))))"

section \<open>The seen-set file as JSON text\<close>

text \<open>
  \<open>save_seen_jobs\<close> writes \<open>json.dump(jobs, f, indent=2)\<close> and \<open>load_seen_jobs\<close> reads
  \<open>json.load(f)\<close>. The file is modelled by its text. The encoder is the one of the
  standard library for a list of strings (\<open>ensure_ascii\<close> is on): a character outside
  the printable ASCII range, a quote and a backslash are escaped, a code point above
  \<open>0xffff\<close> as a surrogate pair.
\<close>

definition hex_digit :: "nat \<Rightarrow> nat" where
  "hex_digit d = (if d < 10 then 48 + d else 87 + d)"

definition hex4 :: "nat \<Rightarrow> pystr" where
  "hex4 n = [hex_digit (n div 4096 mod 16), hex_digit (n div 256 mod 16),
             hex_digit (n div 16 mod 16), hex_digit (n mod 16)]"

definition u_escape :: "nat \<Rightarrow> pystr" where
  "u_escape n = [92, 117] @ hex4 n"

definition escape_char :: "nat \<Rightarrow> pystr" where
  "escape_char c =
     (if c = 34 then [92, 34]
      else if c = 92 then [92, 92]
      else if c = 10 then [92, 110]
      else if c = 13 then [92, 114]
      else if c = 9 then [92, 116]
      else if c = 8 then [92, 98]
      else if c = 12 then [92, 102]
      else if 32 \<le> c \<and> c \<le> 126 then [c]
      else if c < 65536 then u_escape c
      else u_escape (55296 + (c - 65536) div 1024 mod 1024) @
           u_escape (56320 + (c - 65536) mod 1024))"

definition encode_basestring_ascii :: "pystr \<Rightarrow> pystr" where
  "encode_basestring_ascii s = [34] @ concat (map escape_char s) @ [34]"

fun join :: "pystr \<Rightarrow> pystr list \<Rightarrow> pystr" where
  "join sep [] = []"
| "join sep [x] = x"
| "join sep (x # y # ys) = x @ sep @ join sep (y # ys)"

definition json_dumps :: "pystr list \<Rightarrow> pystr" where
  "json_dumps ids =
     (if ids = [] then lit ''[]''
      else lit ''['' @ [10, 32, 32] @
           join ([44] @ [10, 32, 32]) (map encode_basestring_ascii ids) @
           [10] @ lit '']'')"

text \<open>
  The decoder follows \<open>json.decoder\<close> and \<open>json.scanner\<close>. \<open>scanstring\<close> (strict) reads
  a string after its opening quote, rejects a raw control character, and joins an
  escaped high surrogate with the escaped low surrogate that follows it.
\<close>

definition hex_val :: "nat \<Rightarrow> nat option" where
  "hex_val c =
     (if 48 \<le> c \<and> c \<le> 57 then Some (c - 48)
      else if 97 \<le> c \<and> c \<le> 102 then Some (c - 87)
      else if 65 \<le> c \<and> c \<le> 70 then Some (c - 55)
      else None)"

definition decode_uXXXX :: "pystr \<Rightarrow> nat option" where
  "decode_uXXXX s =
     (case s of
        a # b # c # d # _ \<Rightarrow>
          (case (hex_val a, hex_val b, hex_val c, hex_val d) of
             (Some x, Some y, Some z, Some w) \<Rightarrow> Some (((x * 16 + y) * 16 + z) * 16 + w)
           | _ \<Rightarrow> None)
      | _ \<Rightarrow> None)"

definition backslash :: "nat \<Rightarrow> nat option" where
  "backslash e =
     (if e = 34 then Some 34
      else if e = 92 then Some 92
      else if e = 47 then Some 47
      else if e = 98 then Some 8
      else if e = 102 then Some 12
      else if e = 110 then Some 10
      else if e = 114 then Some 13
      else if e = 116 then Some 9
      else None)"

definition cons_result :: "nat \<Rightarrow> (pystr \<times> pystr) option \<Rightarrow> (pystr \<times> pystr) option" where
  "cons_result c r = (case r of None \<Rightarrow> None | Some (s, rest) \<Rightarrow> Some (c # s, rest))"

function scanstring :: "pystr \<Rightarrow> (pystr \<times> pystr) option" where
  "scanstring [] = None"
| "scanstring (c # cs) =
     (if c = 34 then Some ([], cs)
      else if c = 92 then
        (case cs of
           [] \<Rightarrow> None
         | e # cs' \<Rightarrow>
             if e = 117 then
               (case decode_uXXXX cs' of
                  None \<Rightarrow> None
                | Some uni \<Rightarrow>
                    if 55296 \<le> uni \<and> uni \<le> 56319 \<and> take 2 (drop 4 cs') = [92, 117] then
                      (case decode_uXXXX (drop 6 cs') of
                         None \<Rightarrow> None
                       | Some uni2 \<Rightarrow>
                           if 56320 \<le> uni2 \<and> uni2 \<le> 57343
                           then cons_result (65536 + ((uni - 55296) * 1024 + (uni2 - 56320)))
                                  (scanstring (drop 10 cs'))
                           else cons_result uni (scanstring (drop 4 cs')))
                    else cons_result uni (scanstring (drop 4 cs')))
             else
               (case backslash e of
                  None \<Rightarrow> None
                | Some ch \<Rightarrow> cons_result ch (scanstring cs')))
      else if c < 32 then None
      else cons_result c (scanstring cs))"
  by pat_completeness auto
termination
  by (relation "measure length") auto

definition is_ws :: "nat \<Rightarrow> bool" where
  "is_ws c \<longleftrightarrow> c = 32 \<or> c = 9 \<or> c = 10 \<or> c = 13"

definition skip_ws :: "pystr \<Rightarrow> pystr" where
  "skip_ws s = dropWhile is_ws s"

lemma scanstring_shorter:
  "scanstring s = Some (v, r) \<Longrightarrow> length r < length s"
proof (induction s arbitrary: v r rule: scanstring.induct)
  case 1
  then show ?case by simp
next
  case (2 c cs)
  show ?case
    using "2.prems" "2.IH"
    by (fastforce simp: cons_result_def
        split: if_splits list.splits option.splits prod.splits)
qed

lemma skip_ws_length: "length (skip_ws s) \<le> length s"
  by (simp add: skip_ws_def length_dropWhile_le)

text \<open>
  A JSON value. A number is kept as the text of its literal (\<open>NaN\<close>, \<open>Infinity\<close> and
  \<open>-Infinity\<close>, which the decoder accepts, among them): what Python makes of it is
  floating point and is not needed here.
\<close>

datatype json =
    JNull
  | JBool bool
  | JNumber pystr
  | JString pystr
  | JArray "json list"
  | JObject "(pystr \<times> json) list"

definition is_digit :: "nat \<Rightarrow> bool" where
  "is_digit c \<longleftrightarrow> 48 \<le> c \<and> c \<le> 57"

text \<open>
  The number at the head of a text: an optional minus, \<open>0\<close> or a run of digits not
  starting with \<open>0\<close>, then a fraction if a point and a digit follow, then an exponent
  if \<open>e\<close> or \<open>E\<close>, an optional sign and a digit follow.
\<close>

definition match_exponent :: "pystr \<Rightarrow> pystr \<times> pystr" where
  "match_exponent r =
     (case r of
        [] \<Rightarrow> ([], r)
      | e # t \<Rightarrow>
          if e = 101 \<or> e = 69 then
            (let (sg, t') = (case t of
                               [] \<Rightarrow> ([], t)
                             | c # u \<Rightarrow> if c = 43 \<or> c = 45 then ([c], u) else ([], t))
             in case t' of
                  [] \<Rightarrow> ([], r)
                | d # _ \<Rightarrow>
                    if is_digit d
                    then (e # sg @ takeWhile is_digit t', dropWhile is_digit t')
                    else ([], r))
          else ([], r))"

definition match_fraction :: "pystr \<Rightarrow> pystr \<times> pystr" where
  "match_fraction r =
     (case r of
        p # q # t \<Rightarrow>
          if p = 46 \<and> is_digit q
          then (p # takeWhile is_digit (q # t), dropWhile is_digit (q # t))
          else ([], r)
      | _ \<Rightarrow> ([], r))"

definition match_number :: "pystr \<Rightarrow> (pystr \<times> pystr) option" where
  "match_number s =
     (let (sign, s1) = (case s of
                          [] \<Rightarrow> ([], s)
                        | c # cs \<Rightarrow> if c = 45 then ([c], cs) else ([], s))
      in case s1 of
           [] \<Rightarrow> None
         | d # ds \<Rightarrow>
             if \<not> is_digit d then None
             else
               (let (ip, r1) = (if d = 48 then ([d], ds)
                                else (takeWhile is_digit s1, dropWhile is_digit s1));
                    (fp, r2) = match_fraction r1;
                    (ep, r3) = match_exponent r2
                in Some (sign @ ip @ fp @ ep, r3)))"

text \<open>The constants and numbers of \<open>scan_once\<close>, tried in its order.\<close>

definition scan_atom :: "pystr \<Rightarrow> (json \<times> pystr) option" where
  "scan_atom s =
     (if take 4 s = lit ''null'' then Some (JNull, drop 4 s)
      else if take 4 s = lit ''true'' then Some (JBool True, drop 4 s)
      else if take 5 s = lit ''false'' then Some (JBool False, drop 5 s)
      else (case match_number s of
              Some (n, r) \<Rightarrow> Some (JNumber n, r)
            | None \<Rightarrow>
                if take 3 s = lit ''NaN'' then Some (JNumber (lit ''NaN''), drop 3 s)
                else if take 8 s = lit ''Infinity''
                  then Some (JNumber (lit ''Infinity''), drop 8 s)
                else if take 9 s = lit ''-Infinity''
                  then Some (JNumber (lit ''-Infinity''), drop 9 s)
                else None))"

lemma skip_ws_Cons_length: "skip_ws r = d # r' \<Longrightarrow> length r' < length r"
  using skip_ws_length [of r] by simp

text \<open>
  \<open>scan_once\<close> with \<open>JSONArray\<close> and \<open>JSONObject\<close>: \<open>None\<close> is \<open>JSONDecodeError\<close>.
  \<open>decode_items\<close> starts at the first value of a non-empty array, \<open>decode_pairs\<close> at the
  quote of a key. The tests that the rest of the text got shorter always succeed (a
  value is at least one character); they make the recursion well-founded. The limits
  of an interpreter (recursion depth, the digits of an integer literal) are not
  modelled.
\<close>

function decode_value :: "pystr \<Rightarrow> (json \<times> pystr) option"
  and decode_items :: "pystr \<Rightarrow> (json list \<times> pystr) option"
  and decode_pairs :: "pystr \<Rightarrow> ((pystr \<times> json) list \<times> pystr) option"
where
  "decode_value s =
     (case s of
        [] \<Rightarrow> None
      | c # cs \<Rightarrow>
          if c = 34 then
            (case scanstring cs of
               None \<Rightarrow> None
             | Some (v, r) \<Rightarrow> Some (JString v, r))
          else if c = 123 then
            (case skip_ws cs of
               [] \<Rightarrow> None
             | d # r \<Rightarrow>
                 if d = 125 then Some (JObject [], r)
                 else if d = 34 then
                   (case decode_pairs (d # r) of
                      None \<Rightarrow> None
                    | Some (kvs, r') \<Rightarrow> Some (JObject kvs, r'))
                 else None)
          else if c = 91 then
            (case skip_ws cs of
               [] \<Rightarrow> None
             | d # r \<Rightarrow>
                 if d = 93 then Some (JArray [], r)
                 else
                   (case decode_items (d # r) of
                      None \<Rightarrow> None
                    | Some (vs, r') \<Rightarrow> Some (JArray vs, r')))
          else scan_atom s)"
| "decode_items s =
     (case decode_value s of
        None \<Rightarrow> None
      | Some (v, r) \<Rightarrow>
          if length r < length s then
            (case skip_ws r of
               [] \<Rightarrow> None
             | d # r' \<Rightarrow>
                 if d = 93 then Some ([v], r')
                 else if d = 44 then
                   (case decode_items (skip_ws r') of
                      None \<Rightarrow> None
                    | Some (vs, r'') \<Rightarrow> Some (v # vs, r''))
                 else None)
          else None)"
| "decode_pairs s =
     (case s of
        [] \<Rightarrow> None
      | c # cs \<Rightarrow>
          if c \<noteq> 34 then None
          else
            (case scanstring cs of
               None \<Rightarrow> None
             | Some (k, r) \<Rightarrow>
                 (case skip_ws r of
                    [] \<Rightarrow> None
                  | d # r1 \<Rightarrow>
                      if d \<noteq> 58 then None
                      else
                        (case decode_value (skip_ws r1) of
                           None \<Rightarrow> None
                         | Some (v, r2) \<Rightarrow>
                             if length r2 < length (skip_ws r1) then
                               (case skip_ws r2 of
                                  [] \<Rightarrow> None
                                | e # r3 \<Rightarrow>
                                    if e = 125 then Some ([(k, v)], r3)
                                    else if e = 44 then
                                      (case decode_pairs (skip_ws r3) of
                                         None \<Rightarrow> None
                                       | Some (kvs, r4) \<Rightarrow> Some ((k, v) # kvs, r4))
                                    else None)
                             else None))))"
  by pat_completeness auto

termination
proof (relation "measure (\<lambda>x. case x of
                    Inl s \<Rightarrow> 2 * length s
                  | Inr (Inl s) \<Rightarrow> 2 * length s + 1
                  | Inr (Inr s) \<Rightarrow> 2 * length s + 1)", goal_cases)
  case 1
  show ?case by simp
next
  case (2 s c cs d r)
  then show ?case using skip_ws_Cons_length [of cs d r] by simp
next
  case (3 s c cs d r)
  then show ?case using skip_ws_Cons_length [of cs d r] by simp
next
  case (4 s)
  show ?case by simp
next
  case (5 s x2 v r d r')
  then show ?case
    using skip_ws_Cons_length [of r d r'] skip_ws_length [of r'] by simp
next
  case (6 s c cs x2 k r d r1)
  then show ?case
    using scanstring_shorter [of cs k r] skip_ws_Cons_length [of r d r1] skip_ws_length [of r1]
    by simp
next
  case (7 s c cs x2 k r d r1 x2a v r2 e r3)
  then show ?case
    using scanstring_shorter [of cs k r] skip_ws_Cons_length [of r d r1] skip_ws_length [of r1]
      skip_ws_Cons_length [of r2 e r3] skip_ws_length [of r3]
    by simp
qed

text \<open>
  \<open>json.loads\<close>: one value between optional whitespace, nothing after it. The result
  of reading the seen-set file is the list of identifiers when the text holds an array
  of strings, \<open>NotJSON\<close> when \<open>json.load\<close> raises \<open>JSONDecodeError\<close>, and any other
  JSON value as it is.
\<close>

datatype 'a loaded = Loaded 'a | NotJSON | OtherJSON json

fun as_strings :: "json list \<Rightarrow> pystr list option" where
  "as_strings [] = Some []"
| "as_strings (JString s # vs) =
     (case as_strings vs of None \<Rightarrow> None | Some ss \<Rightarrow> Some (s # ss))"
| "as_strings (v # vs) = None"

definition json_loads :: "pystr \<Rightarrow> pystr list loaded" where
  "json_loads s =
     (case decode_value (skip_ws s) of
        None \<Rightarrow> NotJSON
      | Some (v, rest) \<Rightarrow>
          if skip_ws rest \<noteq> [] then NotJSON
          else
            (case v of
               JArray vs \<Rightarrow>
                 (case as_strings vs of
                    Some ids \<Rightarrow> Loaded ids
                  | None \<Rightarrow> OtherJSON v)
             | _ \<Rightarrow> OtherJSON v))"

text \<open>
  The strings that survive the round trip through the file: every code point is one of
  Unicode, and no high surrogate is directly followed by a low surrogate (the decoder
  would join the two).
\<close>

definition is_high_surrogate :: "nat \<Rightarrow> bool" where
  "is_high_surrogate c \<longleftrightarrow> 55296 \<le> c \<and> c \<le> 56319"

definition is_low_surrogate :: "nat \<Rightarrow> bool" where
  "is_low_surrogate c \<longleftrightarrow> 56320 \<le> c \<and> c \<le> 57343"

fun no_surrogate_pair :: "pystr \<Rightarrow> bool" where
  "no_surrogate_pair (a # b # cs) =
     (\<not> (is_high_surrogate a \<and> is_low_surrogate b) \<and> no_surrogate_pair (b # cs))"
| "no_surrogate_pair cs = True"

definition json_safe :: "pystr \<Rightarrow> bool" where
  "json_safe s \<longleftrightarrow> (\<forall>c \<in> set s. c < 1114112) \<and> no_surrogate_pair s"

section \<open>The world of one run\<close>

text \<open>
  Everything outside the process: the two files, the environment, the browser, the mail
  relay, the encoding of the standard output, the iteration order of Python's sets, and
  what the run leaves behind (the lines it prints and the traffic to the mail relay).

  The configuration file is absent, is not JSON, or holds an object; the object is the
  dictionary \<open>json.load\<close> returns, with string values (section 3 of the specification).
  Opening a file that exists, and writing the seen-set file, succeed.
\<close>

type_synonym config = "pystr \<rightharpoonup> pystr"

datatype config_file = NoConfigFile | ConfigNotJSON | ConfigObject config

text \<open>
  The browser session of \<open>scrape_jobs\<close>: starting it (lines 59-61, before the \<open>try\<close>)
  raises, or it starts; then loading the page and finding the listing elements (lines
  65-71, inside the \<open>try\<close>) raises or returns the elements; \<open>browser.close()\<close> in the
  \<open>finally\<close> block raises or returns.
\<close>

datatype browser = LaunchRaises | Launched "element list call" "unit call"

text \<open>
  The mail relay: which call of lines 195-197 raises, if any, and the text of the
  exception. \<open>SendRaises\<close> is any failure of \<open>send_message\<close>, also one before the
  message leaves.
\<close>

datatype smtp_server = ConnectRaises pystr | LoginRaises pystr | SendRaises pystr | Accepts

text \<open>
  The message of \<open>send_email\<close>: its \<open>From\<close> and \<open>To\<close> headers, and the jobs its HTML body
  renders, one block each, in order. The body is a fixed ASCII template with, for each
  job, its title, pay, hired text, url and timestamp.
\<close>

record message =
  msg_from :: pystr
  msg_to :: pystr
  msg_jobs :: "job list"

datatype smtp_event = Connect | Login pystr pystr | SendMessage message

datatype log_line =
    ConfigNotFound
  | ScrapingStarted
  | ErrorParsingElement
  | ErrorScraping
  | FoundTotal nat
  | NoJobsFound
  | FoundNew nat
  | NewJobLine pystr pystr
  | NoNewJobs
  | PasswordNotSet
  | EmailSent pystr
  | ErrorSendingEmail

text \<open>
  \<open>stdout_encodes\<close> tells which code points beyond ASCII the encoding of the standard
  output can write (with UTF-8: all but the surrogates). \<open>set_order\<close> is \<open>list(set(xs))\<close>
  for a list of strings. \<open>rewrite_mixed\<close> is the text \<open>json.dump\<close> writes for
  \<open>list(set(xs)) + ids\<close> when \<open>xs\<close> holds numbers, booleans or \<open>null\<close>: it depends on
  floating point and on the equality of Python's numbers.
\<close>

record world =
  config_file :: config_file
  seen_file :: "pystr option"
  smtp_password :: "pystr option"
  browser :: browser
  smtp :: smtp_server
  stdout_encodes :: "nat \<Rightarrow> bool"
  set_order :: "pystr list \<Rightarrow> pystr list"
  rewrite_mixed :: "json list \<Rightarrow> pystr list \<Rightarrow> pystr"
  stdout :: "log_line list"
  mail :: "smtp_event list"

text \<open>
  Printing a line made of ASCII text always succeeds (the output is open and its
  encoding contains ASCII). A line that carries other text raises \<open>UnicodeEncodeError\<close>
  when the output cannot encode it; the text of that exception is ASCII.
\<close>

definition print :: "log_line \<Rightarrow> world \<Rightarrow> world" where
  "print l w = w\<lparr>stdout := stdout w @ [l]\<rparr>"

definition encodable :: "world \<Rightarrow> pystr \<Rightarrow> bool" where
  "encodable w t = list_all (\<lambda>c. c < 128 \<or> stdout_encodes w c) t"

definition smtp_traffic :: "smtp_event list \<Rightarrow> world \<Rightarrow> world" where
  "smtp_traffic es w = w\<lparr>mail := mail w @ es\<rparr>"

section \<open>The program\<close>

definition load_config :: "world \<Rightarrow> (py_exc + config) \<times> world" where
  "load_config w =
     (case config_file w of
        NoConfigFile \<Rightarrow> (Inl (SystemExit 1), print ConfigNotFound w)
      | ConfigNotJSON \<Rightarrow> (Inl JSONDecodeError, w)
      | ConfigObject c \<Rightarrow> (Inr c, w))"

definition load_seen_jobs :: "world \<Rightarrow> pystr list loaded" where
  "load_seen_jobs w =
     (case seen_file w of
        Some t \<Rightarrow> json_loads t
      | None \<Rightarrow> Loaded [])"

definition save_seen_jobs :: "pystr list \<Rightarrow> world \<Rightarrow> world" where
  "save_seen_jobs jobs w = w\<lparr>seen_file := Some (json_dumps jobs)\<rparr>"

text \<open>
  The loop over the listing elements (lines 73-101). The handler of line 99 prints the
  text of the exception; when that print raises, the exception leaves the loop for the
  handler of line 103, and the jobs found so far are kept. The result tells whether
  the loop ran to its end.
\<close>

fun scrape_loop :: "element list \<Rightarrow> job list \<Rightarrow> world \<Rightarrow> (job list \<times> bool) \<times> world" where
  "scrape_loop [] jobs w = ((jobs, True), w)"
| "scrape_loop (e # es) jobs w =
     (case extract_job e of
        Inr j \<Rightarrow> scrape_loop es (jobs @ [j]) w
      | Inl m \<Rightarrow>
          if encodable w m then scrape_loop es jobs (print ErrorParsingElement w)
          else ((jobs, False), w))"

text \<open>
  \<open>scrape_jobs\<close>. An exception inside the \<open>try\<close> is printed by the handler of line 103;
  when that print raises, the exception leaves the function after \<open>browser.close()\<close>.
\<close>

definition scrape_jobs :: "world \<Rightarrow> (py_exc + job list) \<times> world" where
  "scrape_jobs w =
     (let w0 = print ScrapingStarted w in
      case browser w of
        LaunchRaises \<Rightarrow> (Inl PlaywrightError, w0)
      | Launched page closing \<Rightarrow>
          (let (jobs, printed, w1) =
                 (case page of
                    Returns es \<Rightarrow>
                      (case scrape_loop es [] w0 of
                         ((jobs, True), w') \<Rightarrow> (jobs, True, w')
                       | ((jobs, False), w') \<Rightarrow> (jobs, True, print ErrorScraping w'))
                  | Raises m \<Rightarrow>
                      if encodable w m then ([], True, print ErrorScraping w0)
                      else ([], False, w0))
           in case closing of
                Raises m \<Rightarrow> (Inl PlaywrightError, w1)
              | Returns u \<Rightarrow>
                  if printed then (Inr jobs, print (FoundTotal (length jobs)) w1)
                  else (Inl UnicodeEncodeError, w1)))"

text \<open>Lines 221-223: the count, then one line per new job with its title and pay.\<close>

fun print_new_jobs :: "job list \<Rightarrow> world \<Rightarrow> (py_exc + unit) \<times> world" where
  "print_new_jobs [] w = (Inr (), w)"
| "print_new_jobs (job # jobs) w =
     (if encodable w (job_title job @ job_pay job)
      then print_new_jobs jobs (print (NewJobLine (job_title job) (job_pay job)) w)
      else (Inl UnicodeEncodeError, w))"

text \<open>
  \<open>MIMEText(html_body, 'html')\<close> (line 186) encodes the body as ASCII or else as UTF-8,
  and raises \<open>UnicodeEncodeError\<close> when a text of a job holds a surrogate code point.
\<close>

definition is_surrogate :: "nat \<Rightarrow> bool" where
  "is_surrogate c \<longleftrightarrow> 55296 \<le> c \<and> c \<le> 57343"

definition body_texts :: "job list \<Rightarrow> pystr" where
  "body_texts jobs =
     concat (map (\<lambda>job. job_title job @ job_pay job @ job_hired job @ job_url job @
                         job_found_at job) jobs)"

definition mime_text_ok :: "job list \<Rightarrow> bool" where
  "mime_text_ok jobs = list_all (\<lambda>c. \<not> is_surrogate c) (body_texts jobs)"

text \<open>The handler of line 200: it prints the text of the exception.\<close>

definition email_failed :: "pystr \<Rightarrow> world \<Rightarrow> world \<Rightarrow> (py_exc + unit) \<times> world" where
  "email_failed m w w' =
     (if encodable w m then (Inr (), print ErrorSendingEmail w')
      else (Inl UnicodeEncodeError, w'))"

text \<open>
  Line 199 prints the recipient; when that print raises, the handler of line 200
  prints its line instead.
\<close>

definition success_line :: "world \<Rightarrow> pystr \<Rightarrow> log_line" where
  "success_line w recipient =
     (if encodable w recipient then EmailSent recipient else ErrorSendingEmail)"

definition send_email :: "config \<Rightarrow> job list \<Rightarrow> world \<Rightarrow> (py_exc + unit) \<times> world" where
  "send_email config new_jobs w =
     (case config (lit ''email'') of
        None \<Rightarrow> (Inl KeyError, w)
      | Some recipient \<Rightarrow>
          (let msg = \<lparr>msg_from = (case config (lit ''smtp_from'') of
                                     Some a \<Rightarrow> a | None \<Rightarrow> recipient),
                       msg_to = recipient,
                       msg_jobs = new_jobs\<rparr>
           in if \<not> mime_text_ok new_jobs then (Inr (), print ErrorSendingEmail w)
              else
                (case smtp_password w of
                   None \<Rightarrow> (Inr (), print PasswordNotSet w)
                 | Some password \<Rightarrow>
                     if password = [] then (Inr (), print PasswordNotSet w)
                     else
                       (let user = (case config (lit ''smtp_user'') of
                                      Some a \<Rightarrow> a | None \<Rightarrow> recipient)
                        in case smtp w of
                             ConnectRaises m \<Rightarrow>
                               email_failed m w (smtp_traffic [Connect] w)
                           | LoginRaises m \<Rightarrow>
                               email_failed m w (smtp_traffic [Connect, Login user password] w)
                           | SendRaises m \<Rightarrow>
                               email_failed m w
                                 (smtp_traffic
                                    [Connect, Login user password, SendMessage msg] w)
                           | Accepts \<Rightarrow>
                               (Inr (),
                                print (success_line w recipient)
                                  (smtp_traffic
                                     [Connect, Login user password, SendMessage msg] w))))))"

text \<open>Lines 217-218: the jobs whose id is not among the seen ones.\<close>

definition find_new_jobs :: "pystr list \<Rightarrow> job list \<Rightarrow> job list" where
  "find_new_jobs seen_jobs current_jobs =
     (let seen_ids = set seen_jobs
      in [job \<leftarrow> current_jobs. job_id job \<notin> seen_ids])"

text \<open>
  Lines 220-232, given the new jobs and the write of line 230: the lines printed, the
  notification, and the seen-set file saved.
\<close>

datatype outcome = Returned | Raised py_exc

definition notify_and_save ::
  "config \<Rightarrow> job list \<Rightarrow> (world \<Rightarrow> world) \<Rightarrow> world \<Rightarrow> outcome \<times> world" where
  "notify_and_save config new_jobs save w2 =
     (if new_jobs \<noteq> [] then
        (case print_new_jobs new_jobs (print (FoundNew (length new_jobs)) w2) of
           (Inl x, w3) \<Rightarrow> (Raised x, w3)
         | (Inr u, w3) \<Rightarrow>
             (case send_email config new_jobs w3 of
                (Inl x, w4) \<Rightarrow> (Raised x, w4)
              | (Inr u, w4) \<Rightarrow> (Returned, save w4)))
      else (Returned, print NoNewJobs w2))"

text \<open>
  \<open>set(seen_jobs)\<close> (line 217) when the file holds another JSON value: the members of
  the set, or \<open>TypeError\<close> for a value that cannot be iterated and for an array with a
  member that cannot be hashed. A string gives its characters, an object its keys.
\<close>

definition is_container :: "json \<Rightarrow> bool" where
  "is_container v = (case v of JArray _ \<Rightarrow> True | JObject _ \<Rightarrow> True | _ \<Rightarrow> False)"

definition seen_members :: "json \<Rightarrow> py_exc + json list" where
  "seen_members v =
     (case v of
        JArray vs \<Rightarrow> if list_ex is_container vs then Inl TypeError else Inr vs
      | JObject kvs \<Rightarrow> Inr (map (\<lambda>(k, u). JString k) kvs)
      | JString s \<Rightarrow> Inr (map (\<lambda>c. JString [c]) s)
      | _ \<Rightarrow> Inl TypeError)"

fun strings_among :: "json list \<Rightarrow> pystr list" where
  "strings_among [] = []"
| "strings_among (JString s # vs) = s # strings_among vs"
| "strings_among (v # vs) = strings_among vs"

definition main :: "world \<Rightarrow> outcome \<times> world" where
  "main w =
     (case load_config w of
        (Inl x, w1) \<Rightarrow> (Raised x, w1)
      | (Inr config, w1) \<Rightarrow>
          (case load_seen_jobs w1 of
             NotJSON \<Rightarrow> (Raised JSONDecodeError, w1)
           | Loaded seen_jobs \<Rightarrow>
               (case scrape_jobs w1 of
                  (Inl x, w2) \<Rightarrow> (Raised x, w2)
                | (Inr current_jobs, w2) \<Rightarrow>
                    if current_jobs = [] then (Returned, print NoJobsFound w2)
                    else
                      (let new_jobs = find_new_jobs seen_jobs current_jobs
                       in notify_and_save config new_jobs
                            (save_seen_jobs (set_order w seen_jobs @ map job_id new_jobs))
                            w2))
           | OtherJSON v \<Rightarrow>
               (case scrape_jobs w1 of
                  (Inl x, w2) \<Rightarrow> (Raised x, w2)
                | (Inr current_jobs, w2) \<Rightarrow>
                    if current_jobs = [] then (Returned, print NoJobsFound w2)
                    else
                      (case seen_members v of
                         Inl x \<Rightarrow> (Raised x, w2)
                       | Inr members \<Rightarrow>
                           (let seen_ids = strings_among members;
                                new_jobs = find_new_jobs seen_ids current_jobs
                            in notify_and_save config new_jobs
                                 (if as_strings members = None
                                  then (\<lambda>w4. w4\<lparr>seen_file :=
                                          Some (rewrite_mixed w members (map job_id new_jobs))\<rparr>)
                                  else save_seen_jobs
                                         (set_order w seen_ids @ map job_id new_jobs))
                                 w2)))))"

text \<open>The exit status of the process: 0 when \<open>main\<close> returns, the argument of
  \<open>sys.exit\<close>, and 1 for any other exception that leaves \<open>main\<close>.\<close>

definition exit_status :: "outcome \<Rightarrow> nat" where
  "exit_status out =
     (case out of
        Returned \<Rightarrow> 0
      | Raised (SystemExit n) \<Rightarrow> n
      | Raised _ \<Rightarrow> 1)"





text \<open>
  \<open>list(set(xs))\<close> lists each element of \<open>xs\<close> once, in an order that depends on the
  hashes of the strings; \<open>set_order\<close> stands for it and is only known to do this.
\<close>

definition set_order_ok :: "world \<Rightarrow> bool" where
  "set_order_ok w \<longleftrightarrow> (\<forall>xs. distinct (set_order w xs) \<and> set (set_order w xs) = set xs)"

section \<open>A sample world\<close>

text \<open>
  The scenario of section 8 of the specification: the seen-set file holds \<open>["A"]\<close>, the
  page lists the jobs \<open>A\<close> and \<open>B\<close>, and no password is set.
\<close>

definition listing :: "pystr \<Rightarrow> pystr \<Rightarrow> element" where
  "listing href title =
     \<lparr>el_href = Returns (Some href),
      el_h3 = Returns (Some title),
      el_pay = Returns (Some (lit ''$25/hr'')),
      el_hired = Returns None,
      el_clock = lit ''2025-01-01T09:00:00''\<rparr>"

definition posting :: "pystr \<Rightarrow> pystr \<Rightarrow> pystr \<Rightarrow> job" where
  "posting jid title href =
     \<lparr>job_id = jid,
      job_title = title,
      job_pay = lit ''$25/hr'',
      job_hired = [],
      job_url = lit ''https://work.mercor.com'' @ href,
      job_found_at = lit ''2025-01-01T09:00:00''\<rparr>"

definition job_A :: job where
  "job_A = posting (lit ''A'') (lit ''Annotator'') (lit ''/jobs/list_A'')"

definition job_B :: job where
  "job_B = posting (lit ''B'') (lit ''Data Labeler'') (lit ''/jobs/list_B'')"

definition sample_config :: config where
  "sample_config = [lit ''email'' \<mapsto> lit ''me@example.org'']"

definition sample_world :: world where
  "sample_world =
     \<lparr>config_file = ConfigObject sample_config,
      seen_file = Some (json_dumps [lit ''A'']),
      smtp_password = None,
      browser = Launched (Returns [listing (lit ''/jobs/list_A'') (lit ''Annotator''),
                                   listing (lit ''/jobs/list_B'') (lit '' Data Labeler '')])
                         (Returns ()),
      smtp = Accepts,
      stdout_encodes = (\<lambda>c. \<not> is_surrogate c),
      set_order = remdups,
      rewrite_mixed = (\<lambda>members ids. []),
      stdout = [],
      mail = []\<rparr>"

definition failed_page_world :: world where
  "failed_page_world = sample_world\<lparr>browser := Launched (Raises (lit ''Timeout 30000ms exceeded.'')) (Returns ())\<rparr>"

definition only_A_world :: world where
  "only_A_world =
     sample_world\<lparr>browser :=
       Launched (Returns [listing (lit ''/jobs/list_A'') (lit ''Annotator'')]) (Returns ())\<rparr>"

text \<open>
  The page lists the same unseen job twice, and there is no seen-set file yet.
\<close>

definition twice_B_world :: world where
  "twice_B_world =
     sample_world\<lparr>seen_file := None,
       browser :=
         Launched (Returns [listing (lit ''/jobs/list_B'') (lit '' Data Labeler ''),
                            listing (lit ''/jobs/list_B'') (lit '' Data Labeler '')])
                  (Returns ())\<rparr>"



text \<open>The configuration is the empty object.\<close>

definition no_email_world :: world where
  "no_email_world = sample_world\<lparr>config_file := ConfigObject Map.empty\<rparr>"

text \<open>
  The page lists the unseen job \<open>B\<close> with a title, or with a hired text, that is the
  single surrogate code point \<open>U+D83D\<close>.
\<close>

definition lone_title_world :: world where
  "lone_title_world =
     sample_world\<lparr>browser :=
       Launched (Returns [listing (lit ''/jobs/list_B'') [55357]]) (Returns ())\<rparr>"

definition lone_hired_world :: world where
  "lone_hired_world =
     sample_world\<lparr>browser :=
       Launched (Returns [(listing (lit ''/jobs/list_B'') (lit '' Data Labeler ''))
                            \<lparr>el_hired := Returns (Some [55357])\<rparr>])
                (Returns ())\<rparr>"

text \<open>
  There is no seen-set file, and the page lists two jobs whose ids differ: the two code
  points \<open>U+D83D U+DE00\<close>, and the one code point \<open>U+1F600\<close>.
\<close>

definition pair_ids_world :: world where
  "pair_ids_world =
     sample_world\<lparr>seen_file := None,
       browser :=
         Launched (Returns [listing (lit ''/jobs/list_'' @ [55357, 56832]) (lit ''First''),
                            listing (lit ''/jobs/list_'' @ [128512]) (lit ''Second'')])
                  (Returns ())\<rparr>"

section \<open>Names used in the statements\<close>

text \<open>The lines of lines 221-223, when they can all be written.\<close>

definition announced :: "job list \<Rightarrow> world \<Rightarrow> world" where
  "announced new_jobs w2 =
     w2\<lparr>stdout := stdout w2 @ FoundNew (length new_jobs) #
                   map (\<lambda>job. NewJobLine (job_title job) (job_pay job)) new_jobs\<rparr>"

definition job_lone_title :: job where
  "job_lone_title = posting (lit ''B'') [55357] (lit ''/jobs/list_B'')"

definition job_lone_hired :: job where
  "job_lone_hired = job_B\<lparr>job_hired := [55357]\<rparr>"

definition job_first :: job where
  "job_first = posting [55357, 56832] (lit ''First'') (lit ''/jobs/list_'' @ [55357, 56832])"

definition job_second :: job where
  "job_second = posting [128512] (lit ''Second'') (lit ''/jobs/list_'' @ [128512])"


section \<open>Saving and loading the seen set\<close>

lemma hex_val_hex_digit: "d < 16 \<Longrightarrow> hex_val (hex_digit d) = Some d"
  by (simp add: hex_val_def hex_digit_def)

lemma hex_recompose:
  fixes n :: nat
  assumes "n < 65536"
  shows "((n div 4096 mod 16 * 16 + n div 256 mod 16) * 16 + n div 16 mod 16) * 16 + n mod 16 = n"
proof -
  have top: "n div 4096 mod 16 = n div 4096"
    using assms by (simp add: less_mult_imp_div_less)
  have d1: "n div 4096 = n div 256 div 16" and d2: "n div 256 = n div 16 div 16"
    by (simp_all add: div_mult2_eq [symmetric])
  have "n div 4096 * 16 + n div 256 mod 16 = n div 256"
    unfolding d1 by simp
  moreover have "n div 256 * 16 + n div 16 mod 16 = n div 16"
    unfolding d2 by simp
  moreover have "n div 16 * 16 + n mod 16 = n"
    by simp
  ultimately show ?thesis
    unfolding top by simp
qed

lemma decode_hex4: "n < 65536 \<Longrightarrow> decode_uXXXX (hex4 n @ t) = Some n"
  using hex_recompose [of n]
  by (simp add: decode_uXXXX_def hex4_def hex_val_hex_digit)

lemma escape_char_cases:
  obtains (special) e where "escape_char c = [92, e]" "e \<noteq> 117" "backslash e = Some c"
  | (plain) "escape_char c = [c]" "32 \<le> c" "c \<noteq> 34" "c \<noteq> 92"
  | (unit) "escape_char c = 92 # 117 # hex4 c" "c < 65536"
  | (pair) "escape_char c =
             92 # 117 # hex4 (55296 + (c - 65536) div 1024 mod 1024) @
             92 # 117 # hex4 (56320 + (c - 65536) mod 1024)" "65536 \<le> c"
proof -
  consider "c = 34" | "c = 92" | "c = 10" | "c = 13" | "c = 9" | "c = 8" | "c = 12"
    | "c \<notin> {34, 92, 10, 13, 9, 8, 12}" "32 \<le> c" "c \<le> 126"
    | "c \<notin> {34, 92, 10, 13, 9, 8, 12}" "\<not> (32 \<le> c \<and> c \<le> 126)" "c < 65536"
    | "c \<notin> {34, 92, 10, 13, 9, 8, 12}" "\<not> (32 \<le> c \<and> c \<le> 126)" "65536 \<le> c"
    by fastforce
  then show thesis
  proof cases
    case 1 then show ?thesis by (intro special [of 34]) (simp_all add: escape_char_def backslash_def)
  next
    case 2 then show ?thesis by (intro special [of 92]) (simp_all add: escape_char_def backslash_def)
  next
    case 3 then show ?thesis by (intro special [of 110]) (simp_all add: escape_char_def backslash_def)
  next
    case 4 then show ?thesis by (intro special [of 114]) (simp_all add: escape_char_def backslash_def)
  next
    case 5 then show ?thesis by (intro special [of 116]) (simp_all add: escape_char_def backslash_def)
  next
    case 6 then show ?thesis by (intro special [of 98]) (simp_all add: escape_char_def backslash_def)
  next
    case 7 then show ?thesis by (intro special [of 102]) (simp_all add: escape_char_def backslash_def)
  next
    case 8 then show ?thesis by (intro plain) (simp_all add: escape_char_def)
  next
    case 9 then show ?thesis by (intro unit) (simp_all add: escape_char_def u_escape_def)
  next
    case 10 then show ?thesis by (intro pair) (simp_all add: escape_char_def u_escape_def)
  qed
qed

lemma scan_plain:
  "32 \<le> c \<Longrightarrow> c \<noteq> 34 \<Longrightarrow> c \<noteq> 92 \<Longrightarrow> scanstring (c # t) = cons_result c (scanstring t)"
  by simp

lemma scan_backslash:
  "e \<noteq> 117 \<Longrightarrow> backslash e = Some ch \<Longrightarrow>
     scanstring (92 # e # t) = cons_result ch (scanstring t)"
  by simp

lemma scan_unit:
  assumes "decode_uXXXX t = Some u"
    and "\<not> is_high_surrogate u \<or> take 2 (drop 4 t) \<noteq> [92, 117] \<or>
         (\<exists>u2. decode_uXXXX (drop 6 t) = Some u2 \<and> \<not> is_low_surrogate u2)"
  shows "scanstring (92 # 117 # t) = cons_result u (scanstring (drop 4 t))"
  using assms by (auto simp: is_high_surrogate_def is_low_surrogate_def)

lemma scan_pair:
  assumes "decode_uXXXX t = Some u"
    and "is_high_surrogate u"
    and "take 2 (drop 4 t) = [92, 117]"
    and "decode_uXXXX (drop 6 t) = Some u2"
    and "is_low_surrogate u2"
  shows "scanstring (92 # 117 # t) =
           cons_result (65536 + ((u - 55296) * 1024 + (u2 - 56320))) (scanstring (drop 10 t))"
  using assms by (simp add: is_high_surrogate_def is_low_surrogate_def)

lemma length_hex4 [simp]: "length (hex4 n) = 4"
  by (simp add: hex4_def)

lemma surrogate_units:
  "55296 + (c - 65536) div 1024 mod 1024 < (65536::nat)"
  "56320 + (c - 65536) mod 1024 < (65536::nat)"
  "is_high_surrogate (55296 + (c - 65536) div 1024 mod 1024)"
  "is_low_surrogate (56320 + (c - 65536) mod 1024)"
  "\<not> is_low_surrogate (55296 + (c - 65536) div 1024 mod 1024)"
proof -
  have a: "(c - 65536) div 1024 mod 1024 < 1024" and b: "(c - 65536) mod 1024 < 1024"
    by simp_all
  show "55296 + (c - 65536) div 1024 mod 1024 < (65536::nat)" using a by linarith
  show "56320 + (c - 65536) mod 1024 < (65536::nat)" using b by linarith
  show "is_high_surrogate (55296 + (c - 65536) div 1024 mod 1024)"
    unfolding is_high_surrogate_def using a by linarith
  show "is_low_surrogate (56320 + (c - 65536) mod 1024)"
    unfolding is_low_surrogate_def using b by linarith
  show "\<not> is_low_surrogate (55296 + (c - 65536) div 1024 mod 1024)"
    unfolding is_low_surrogate_def using a by linarith
qed

lemma surrogates_rejoin:
  fixes c :: nat
  assumes "65536 \<le> c" and "c < 1114112"
  shows "65536 + ((55296 + (c - 65536) div 1024 mod 1024 - 55296) * 1024 +
                  (56320 + (c - 65536) mod 1024 - 56320)) = c"
proof -
  have "(c - 65536) div 1024 < 1024"
    using assms by (simp add: less_mult_imp_div_less)
  then have "(c - 65536) div 1024 mod 1024 = (c - 65536) div 1024"
    by simp
  moreover have "(c - 65536) div 1024 * 1024 + (c - 65536) mod 1024 = c - 65536"
    by simp
  ultimately show ?thesis
    using assms(1) by simp
qed

text \<open>What follows an escaped character, when it starts with \<open>\u\<close>.\<close>

lemma lookahead:
  assumes "take 2 (concat (map escape_char cs) @ 34 # rest) = [92, 117]"
  obtains d ds where "cs = d # ds"
    and "decode_uXXXX (drop 2 (concat (map escape_char cs) @ 34 # rest)) =
           Some (if d < 65536 then d else 55296 + (d - 65536) div 1024 mod 1024)"
proof (cases cs)
  case Nil
  then show ?thesis using assms by simp
next
  case (Cons d ds)
  show ?thesis
  proof (cases d rule: escape_char_cases)
    case (special e)
    then show ?thesis using assms Cons by simp
  next
    case plain
    then show ?thesis using assms Cons by simp
  next
    case unit
    then show ?thesis
      using Cons by (intro that [of d ds]) (simp_all add: decode_hex4)
  next
    case pair
    then show ?thesis
      using Cons by (intro that [of d ds]) (simp_all add: decode_hex4 surrogate_units)
  qed
qed

lemma json_safe_Cons:
  assumes "json_safe (c # cs)"
  shows "c < 1114112" and "json_safe cs"
    and "\<And>d ds. cs = d # ds \<Longrightarrow> \<not> (is_high_surrogate c \<and> is_low_surrogate d)"
  using assms by (cases cs; simp add: json_safe_def)+

lemma scanstring_escaped:
  "json_safe s \<Longrightarrow> scanstring (concat (map escape_char s) @ 34 # rest) = Some (s, rest)"
proof (induction s)
  case Nil
  show ?case by simp
next
  case (Cons c cs)
  let ?t = "concat (map escape_char cs) @ 34 # rest"
  have IH: "scanstring ?t = Some (cs, rest)"
    using Cons.IH json_safe_Cons(2) [OF Cons.prems] by simp
  have goal: "scanstring (escape_char c @ ?t) = Some (c # cs, rest)"
  proof (cases c rule: escape_char_cases)
    case (special e)
    then show ?thesis
      using scan_backslash [of e c ?t] IH by (simp add: cons_result_def)
  next
    case plain
    then show ?thesis
      using scan_plain [of c ?t] IH by (simp add: cons_result_def)
  next
    case unit
    have dec: "decode_uXXXX (hex4 c @ ?t) = Some c"
      using unit(2) by (rule decode_hex4)
    have single: "\<not> is_high_surrogate c \<or> take 2 (drop 4 (hex4 c @ ?t)) \<noteq> [92, 117] \<or>
         (\<exists>u2. decode_uXXXX (drop 6 (hex4 c @ ?t)) = Some u2 \<and> \<not> is_low_surrogate u2)"
    proof (cases "is_high_surrogate c \<and> take 2 ?t = [92, 117]")
      case False
      then show ?thesis by auto
    next
      case True
      then obtain d ds where cs: "cs = d # ds"
        and d: "decode_uXXXX (drop 2 ?t) =
                  Some (if d < 65536 then d else 55296 + (d - 65536) div 1024 mod 1024)"
        using lookahead [of cs rest] by blast
      have "\<not> is_low_surrogate d"
        using json_safe_Cons(3) [OF Cons.prems cs] True by simp
      then have "\<not> is_low_surrogate (if d < 65536 then d else 55296 + (d - 65536) div 1024 mod 1024)"
        by (simp add: surrogate_units)
      moreover have "drop 6 (hex4 c @ ?t) = drop 2 ?t"
        by (simp add: hex4_def)
      ultimately show ?thesis using d by metis
    qed
    show ?thesis
      using scan_unit [OF dec single] IH unit(1) by (simp add: cons_result_def)
  next
    case pair
    let ?hi = "55296 + (c - 65536) div 1024 mod 1024"
    let ?lo = "56320 + (c - 65536) mod 1024"
    let ?t' = "hex4 ?hi @ 92 # 117 # hex4 ?lo @ ?t"
    have c: "c < 1114112"
      by (rule json_safe_Cons(1) [OF Cons.prems])
    have "decode_uXXXX ?t' = Some ?hi"
      by (rule decode_hex4) (rule surrogate_units)
    moreover have "take 2 (drop 4 ?t') = [92, 117]"
      by simp
    moreover have "drop 6 ?t' = hex4 ?lo @ ?t"
      by (simp add: hex4_def)
    then have "decode_uXXXX (drop 6 ?t') = Some ?lo"
      by (simp add: decode_hex4 surrogate_units)
    moreover have "drop 10 ?t' = ?t"
      by (simp add: hex4_def)
    ultimately have "scanstring (92 # 117 # ?t') =
        cons_result (65536 + ((?hi - 55296) * 1024 + (?lo - 56320))) (scanstring ?t)"
      using scan_pair [of ?t' ?hi ?lo] surrogate_units(3,4) [of c] by simp
    then show ?thesis
      using IH pair surrogates_rejoin [OF pair(2) c] by (simp add: cons_result_def)
  qed
  then show ?case by simp
qed

lemma join_Cons: "join sep (x # xs) = x @ (if xs = [] then [] else sep @ join sep xs)"
  by (cases xs) simp_all

lemma skip_ws_simps [simp]:
  "skip_ws [] = []"
  "is_ws c \<Longrightarrow> skip_ws (c # cs) = skip_ws cs"
  "\<not> is_ws c \<Longrightarrow> skip_ws (c # cs) = c # cs"
  by (simp_all add: skip_ws_def)

lemma encode_append:
  "encode_basestring_ascii s @ t = 34 # concat (map escape_char s) @ 34 # t"
  by (simp add: encode_basestring_ascii_def)

lemma skip_ws_before_quote: "xs = 34 # ys \<Longrightarrow> skip_ws (10 # 32 # 32 # xs) = xs"
  by (simp add: is_ws_def)

lemma decode_value_string:
  "scanstring cs = Some (v, r) \<Longrightarrow> decode_value (34 # cs) = Some (JString v, r)"
  by simp

lemma decode_value_array:
  assumes "items = 34 # ys"
    and "decode_items items = Some (vs, r)"
  shows "decode_value (91 # 10 # 32 # 32 # items) = Some (JArray vs, r)"
  using assms by (simp add: is_ws_def del: decode_items.simps)

lemma decode_items_step:
  assumes "decode_value s = Some (v, r)"
    and "length r < length s"
  shows "decode_items s =
     (case skip_ws r of
        [] \<Rightarrow> None
      | d # r' \<Rightarrow>
          if d = 93 then Some ([v], r')
          else if d = 44 then
            (case decode_items (skip_ws r') of
               None \<Rightarrow> None
             | Some (vs, r'') \<Rightarrow> Some (v # vs, r''))
          else None)"
  using assms by (subst decode_items.simps) simp

lemma as_strings_map: "as_strings (map JString ids) = Some ids"
  by (induction ids) simp_all

lemma decode_items_joined:
  assumes "ids \<noteq> []"
    and "\<forall>s \<in> set ids. json_safe s"
  shows "decode_items (join [44, 10, 32, 32] (map encode_basestring_ascii ids) @ 10 # 93 # rest) =
           Some (map JString ids, rest)"
  using assms
proof (induction ids)
  case Nil
  then show ?case by simp
next
  case (Cons s ids)
  let ?esc = "concat (map escape_char s)"
  have safe: "json_safe s"
    using Cons.prems(2) by simp
  show ?case
  proof (cases "ids = []")
    case True
    have "scanstring (?esc @ 34 # 10 # 93 # rest) = Some (s, 10 # 93 # rest)"
      using safe by (rule scanstring_escaped)
    then have dv: "decode_value (34 # ?esc @ 34 # 10 # 93 # rest) =
        Some (JString s, 10 # 93 # rest)"
      by (rule decode_value_string)
    have "length (10 # 93 # rest) < length (34 # ?esc @ 34 # 10 # 93 # rest)"
      by simp
    then have "decode_items (34 # ?esc @ 34 # 10 # 93 # rest) = Some ([JString s], rest)"
      using decode_items_step [OF dv]
      by (simp add: is_ws_def del: decode_items.simps decode_value.simps)
    then show ?thesis
      using True by (simp add: encode_append del: decode_items.simps decode_value.simps)
  next
    case False
    let ?more = "join [44, 10, 32, 32] (map encode_basestring_ascii ids) @ 10 # 93 # rest"
    have IH: "decode_items ?more = Some (map JString ids, rest)"
      using Cons.IH False Cons.prems(2) by simp
    obtain t ts where ids: "ids = t # ts"
      using False by (cases ids) auto
    have starts: "?more = 34 # tl ?more"
      by (simp add: ids join_Cons encode_append)
    have ws: "skip_ws (10 # 32 # 32 # ?more) = ?more"
      by (rule skip_ws_before_quote [OF starts])
    have "scanstring (?esc @ 34 # 44 # 10 # 32 # 32 # ?more) =
        Some (s, 44 # 10 # 32 # 32 # ?more)"
      using safe by (rule scanstring_escaped)
    then have dv: "decode_value (34 # ?esc @ 34 # 44 # 10 # 32 # 32 # ?more) =
        Some (JString s, 44 # 10 # 32 # 32 # ?more)"
      by (rule decode_value_string)
    have "length (44 # 10 # 32 # 32 # ?more) <
        length (34 # ?esc @ 34 # 44 # 10 # 32 # 32 # ?more)"
      by simp
    then have "decode_items (34 # ?esc @ 34 # 44 # 10 # 32 # 32 # ?more) =
        Some (JString s # map JString ids, rest)"
      using decode_items_step [OF dv]
      by (simp add: is_ws_def ws IH del: decode_items.simps decode_value.simps)
    then show ?thesis
      using False by (simp add: join_Cons encode_append del: decode_items.simps decode_value.simps)
  qed
qed

lemma json_loads_dumps:
  assumes "\<forall>s \<in> set ids. json_safe s"
  shows "json_loads (json_dumps ids) = Loaded ids"
proof (cases "ids = []")
  case True
  then show ?thesis
    by (simp add: json_loads_def json_dumps_def lit_def is_ws_def)
next
  case False
  let ?items = "join [44, 10, 32, 32] (map encode_basestring_ascii ids) @ 10 # 93 # []"
  have parsed: "decode_items ?items = Some (map JString ids, [])"
    using False assms by (rule decode_items_joined)
  obtain t ts where ids: "ids = t # ts"
    using False by (cases ids) auto
  have starts: "?items = 34 # tl ?items"
    by (simp add: ids join_Cons encode_append)
  have dumps: "json_dumps ids = 91 # 10 # 32 # 32 # ?items"
    using False by (simp add: json_dumps_def lit_def)
  have "decode_value (91 # 10 # 32 # 32 # ?items) = Some (JArray (map JString ids), [])"
    by (rule decode_value_array [OF starts parsed])
  then have "json_loads (91 # 10 # 32 # 32 # ?items) = Loaded ids"
    by (simp add: json_loads_def is_ws_def as_strings_map
        del: decode_items.simps decode_value.simps)
  then show ?thesis
    by (simp only: dumps)
qed

text \<open>
  One identifier made of the two code points \<open>U+D83D\<close> and \<open>U+DE00\<close>: it is written as
  the two escapes \<open>ud83d\<close> and \<open>ude00\<close>, each after a backslash, and read back as the single
  code point \<open>U+1F600\<close>.
\<close>

theorem save_then_load_counterexample:
  "seen_file (save_seen_jobs [[55357, 56832]] sample_world) =
     Some (lit ''['' @ [10, 32, 32, 34] @
           [92] @ lit ''ud83d'' @ [92] @ lit ''ude00'' @ [34, 10] @ lit '']'') \<and>
   load_seen_jobs (save_seen_jobs [[55357, 56832]] sample_world) = Loaded [[128512]] \<and>
   set [[128512 :: nat]] \<noteq> set [[55357, 56832]]"
  by (simp add: load_seen_jobs_def save_seen_jobs_def json_dumps_def json_loads_def lit_def
      encode_basestring_ascii_def escape_char_def u_escape_def hex4_def hex_digit_def
      decode_uXXXX_def hex_val_def is_ws_def cons_result_def)

text \<open>
  C7 (amended). For every list of identifiers in which no string has a high surrogate
  code point directly followed by a low surrogate code point (so for all Unicode text),
  saving the list through the seen-set store and loading it back yields the same list,
  hence a collection with exactly the same members.
\<close>

theorem save_then_load_round_trip:
  assumes "\<forall>s \<in> set ids. json_safe s"
  shows "load_seen_jobs (save_seen_jobs ids w) = Loaded ids"
  using json_loads_dumps [OF assms]
  by (simp add: load_seen_jobs_def save_seen_jobs_def)

theorem save_then_load_round_trip_witness:
  "json_safe (lit ''A'') \<and> json_safe [233, 128512, 34, 92, 10, 55357] \<and>
   load_seen_jobs (save_seen_jobs [lit ''A'', [233, 128512, 34, 92, 10, 55357]] sample_world) =
     Loaded [lit ''A'', [233, 128512, 34, 92, 10, 55357]]"
proof -
  have a: "json_safe (lit ''A'')"
    by (simp add: json_safe_def lit_def)
  have b: "json_safe [233, 128512, 34, 92, 10, 55357]"
    by (simp add: json_safe_def is_high_surrogate_def is_low_surrogate_def)
  have "\<forall>s \<in> set [lit ''A'', [233, 128512, 34, 92, 10, 55357]]. json_safe s"
    using a b by simp
  then show ?thesis
    using a b save_then_load_round_trip [of "[lit ''A'', [233, 128512, 34, 92, 10, 55357]]" sample_world]
    by simp
qed


section \<open>What the stages leave untouched\<close>

lemma scrape_loop_prints:
  "\<exists>ls. snd (scrape_loop es jobs w) = w\<lparr>stdout := stdout w @ ls\<rparr>"
proof (induction es arbitrary: jobs w)
  case Nil
  show ?case by (rule exI [of _ "[]"]) simp
next
  case (Cons e es)
  show ?case
  proof (cases "extract_job e")
    case (Inr j)
    then show ?thesis using Cons.IH [of "jobs @ [j]" w] by simp
  next
    case (Inl m)
    show ?thesis
    proof (cases "encodable w m")
      case False
      then have "snd (scrape_loop (e # es) jobs w) = w\<lparr>stdout := stdout w @ []\<rparr>"
        using Inl by simp
      then show ?thesis by blast
    next
      case True
      obtain ls where "snd (scrape_loop es jobs (print ErrorParsingElement w)) =
          (print ErrorParsingElement w)\<lparr>stdout := stdout (print ErrorParsingElement w) @ ls\<rparr>"
        using Cons.IH [of jobs "print ErrorParsingElement w"] by blast
      then have "snd (scrape_loop (e # es) jobs w) =
          w\<lparr>stdout := stdout w @ (ErrorParsingElement # ls)\<rparr>"
        using Inl True by (simp add: print_def)
      then show ?thesis by blast
    qed
  qed
qed

lemma scrape_jobs_prints:
  "\<exists>ls. snd (scrape_jobs w) = w\<lparr>stdout := stdout w @ ls\<rparr>"
proof (cases "browser w")
  case LaunchRaises
  then have "snd (scrape_jobs w) = w\<lparr>stdout := stdout w @ [ScrapingStarted]\<rparr>"
    by (simp add: scrape_jobs_def print_def)
  then show ?thesis by blast
next
  case (Launched page closing)
  let ?w0 = "print ScrapingStarted w"
  let ?step = "case page of
                 Returns es \<Rightarrow>
                   (case scrape_loop es [] ?w0 of
                      ((jobs, True), w') \<Rightarrow> (jobs, True, w')
                    | ((jobs, False), w') \<Rightarrow> (jobs, True, print ErrorScraping w'))
               | Raises m \<Rightarrow>
                   if encodable w m then ([], True, print ErrorScraping ?w0)
                   else ([], False, ?w0)"
  obtain jobs printed w1 where step: "?step = (jobs, printed, w1)"
    by (cases ?step) auto
  have "\<exists>ls1. w1 = w\<lparr>stdout := stdout w @ ls1\<rparr>"
  proof (cases page)
    case (Raises m)
    then have "w1 = w\<lparr>stdout := stdout w @ [ScrapingStarted, ErrorScraping]\<rparr> \<or>
               w1 = w\<lparr>stdout := stdout w @ [ScrapingStarted]\<rparr>"
      using step by (auto simp: print_def split: if_splits)
    then show ?thesis by blast
  next
    case (Returns es)
    obtain ls where ls: "snd (scrape_loop es [] ?w0) = ?w0\<lparr>stdout := stdout ?w0 @ ls\<rparr>"
      using scrape_loop_prints by blast
    obtain js b w' where loop: "scrape_loop es [] ?w0 = ((js, b), w')"
      by (cases "scrape_loop es [] ?w0") auto
    then have w': "w' = w\<lparr>stdout := stdout w @ (ScrapingStarted # ls)\<rparr>"
      using ls by (simp add: print_def)
    have "w1 = w' \<or> w1 = print ErrorScraping w'"
      using step Returns loop by (cases b) auto
    then have "w1 = w\<lparr>stdout := stdout w @ (ScrapingStarted # ls)\<rparr> \<or>
               w1 = w\<lparr>stdout := stdout w @ (ScrapingStarted # ls @ [ErrorScraping])\<rparr>"
      using w' by (auto simp: print_def)
    then show ?thesis by blast
  qed
  then obtain ls1 where ls1: "w1 = w\<lparr>stdout := stdout w @ ls1\<rparr>"
    by blast
  have "snd (scrape_jobs w) = w1 \<or> snd (scrape_jobs w) = print (FoundTotal (length jobs)) w1"
    using Launched step by (auto simp: scrape_jobs_def Let_def split: call.splits)
  then have "snd (scrape_jobs w) = w\<lparr>stdout := stdout w @ ls1\<rparr> \<or>
             snd (scrape_jobs w) = w\<lparr>stdout := stdout w @ (ls1 @ [FoundTotal (length jobs)])\<rparr>"
    using ls1 by (auto simp: print_def)
  then show ?thesis by blast
qed

lemma scrape_jobs_frame:
  "seen_file (snd (scrape_jobs w)) = seen_file w"
  "mail (snd (scrape_jobs w)) = mail w"
  "smtp_password (snd (scrape_jobs w)) = smtp_password w"
  "smtp (snd (scrape_jobs w)) = smtp w"
  "stdout_encodes (snd (scrape_jobs w)) = stdout_encodes w"
  using scrape_jobs_prints [of w] by auto

lemma print_frame:
  "seen_file (print l w) = seen_file w"
  "mail (print l w) = mail w"
  "smtp_password (print l w) = smtp_password w"
  "smtp (print l w) = smtp w"
  "stdout_encodes (print l w) = stdout_encodes w"
  "stdout (print l w) = stdout w @ [l]"
  by (simp_all add: print_def)

lemma encodable_print [simp]: "encodable (print l w) t = encodable w t"
  by (simp add: encodable_def print_def)

lemma print_new_jobs_frame:
  "seen_file (snd (print_new_jobs jobs w)) = seen_file w \<and>
   mail (snd (print_new_jobs jobs w)) = mail w \<and>
   smtp_password (snd (print_new_jobs jobs w)) = smtp_password w \<and>
   smtp (snd (print_new_jobs jobs w)) = smtp w \<and>
   stdout_encodes (snd (print_new_jobs jobs w)) = stdout_encodes w"
  by (induction jobs arbitrary: w) (simp_all add: print_frame)

text \<open>When every line can be written, the lines of the new jobs are printed in order.\<close>

lemma print_new_jobs_all:
  "\<forall>job \<in> set jobs. encodable w (job_title job @ job_pay job) \<Longrightarrow>
     print_new_jobs jobs w =
       (Inr (), w\<lparr>stdout := stdout w @
                   map (\<lambda>job. NewJobLine (job_title job) (job_pay job)) jobs\<rparr>)"
proof (induction jobs arbitrary: w)
  case Nil
  show ?case by simp
next
  case (Cons job jobs)
  have "\<forall>j \<in> set jobs. encodable (print (NewJobLine (job_title job) (job_pay job)) w)
          (job_title j @ job_pay j)"
    using Cons.prems by simp
  then show ?case
    using Cons.IH [of "print (NewJobLine (job_title job) (job_pay job)) w"] Cons.prems
    by (simp add: print_def)
qed


lemma send_email_frame:
  "seen_file (snd (send_email config jobs w)) = seen_file w"
  by (simp add: send_email_def email_failed_def print_def smtp_traffic_def Let_def
      split: option.splits smtp_server.splits if_splits)


section \<open>The run after the scrape\<close>

lemma sample_extract_A:
  "extract_job (listing (lit ''/jobs/list_A'') (lit ''Annotator'')) = Inr job_A"
  by (simp add: extract_job_def listing_def derive_job_id_def marker_def lit_def py_split_def
      py_index_def text_or_def py_strip_def py_isspace_def job_A_def posting_def)

lemma sample_extract_B:
  "extract_job (listing (lit ''/jobs/list_B'') (lit '' Data Labeler '')) = Inr job_B"
  by (simp add: extract_job_def listing_def derive_job_id_def marker_def lit_def py_split_def
      py_index_def text_or_def py_strip_def py_isspace_def job_B_def posting_def)

lemma sample_scrape:
  "scrape_jobs sample_world =
     (Inr [job_A, job_B], sample_world\<lparr>stdout := [ScrapingStarted, FoundTotal 2]\<rparr>)"
  by (simp add: scrape_jobs_def sample_world_def sample_extract_A sample_extract_B print_def)

lemma loads_A: "json_loads (json_dumps [lit ''A'']) = Loaded [lit ''A'']"
  by (rule json_loads_dumps) (simp add: json_safe_def lit_def)

lemma sample_seen: "load_seen_jobs sample_world = Loaded [lit ''A'']"
  by (simp add: load_seen_jobs_def sample_world_def loads_A)

lemma main_after_scrape:
  assumes "config_file w = ConfigObject cfg"
    and "load_seen_jobs w = Loaded S"
    and "scrape_jobs w = (Inr L, w2)"
  shows "main w =
     (if L = [] then (Returned, print NoJobsFound w2)
      else notify_and_save cfg (find_new_jobs S L)
             (save_seen_jobs (set_order w S @ map job_id (find_new_jobs S L))) w2)"
  using assms by (simp add: main_def load_config_def Let_def)

lemma find_new_jobs_filter:
  "find_new_jobs S L = filter (\<lambda>j. job_id j \<notin> set S) L"
  by (simp add: find_new_jobs_def)

text \<open>
  C1. For every prior seen-set \<open>S\<close> and every non-empty scraped list \<open>L\<close>, the list of new
  jobs the run computes is exactly the elements of \<open>L\<close> whose id is not a member of \<open>S\<close>,
  in the order of \<open>L\<close>: it is that sublist of \<open>L\<close>, it is what the run prints and hands
  to the notifier, and its ids are what the run appends to the seen set.
\<close>

theorem new_jobs_are_the_unseen_in_order:
  assumes "config_file w = ConfigObject cfg"
    and "load_seen_jobs w = Loaded S"
    and "scrape_jobs w = (Inr L, w2)"
    and "L \<noteq> []"
  shows "find_new_jobs S L = filter (\<lambda>j. job_id j \<notin> set S) L \<and>
         subseq (find_new_jobs S L) L \<and>
         (\<forall>j. j \<in> set (find_new_jobs S L) \<longleftrightarrow> j \<in> set L \<and> job_id j \<notin> set S) \<and>
         main w =
           (if filter (\<lambda>j. job_id j \<notin> set S) L = [] then (Returned, print NoNewJobs w2)
            else (case print_new_jobs (filter (\<lambda>j. job_id j \<notin> set S) L)
                         (print (FoundNew (length (filter (\<lambda>j. job_id j \<notin> set S) L))) w2) of
                    (Inl x, w3) \<Rightarrow> (Raised x, w3)
                  | (Inr u, w3) \<Rightarrow>
                      (case send_email cfg (filter (\<lambda>j. job_id j \<notin> set S) L) w3 of
                         (Inl x, w4) \<Rightarrow> (Raised x, w4)
                       | (Inr u, w4) \<Rightarrow>
                           (Returned,
                            save_seen_jobs
                              (set_order w S @
                               map job_id (filter (\<lambda>j. job_id j \<notin> set S) L)) w4))))"
proof -
  have eq: "find_new_jobs S L = filter (\<lambda>j. job_id j \<notin> set S) L"
    by (rule find_new_jobs_filter)
  have sub: "subseq (find_new_jobs S L) L"
    unfolding eq by (rule subseq_filter_left)
  have mem: "\<forall>j. j \<in> set (find_new_jobs S L) \<longleftrightarrow> j \<in> set L \<and> job_id j \<notin> set S"
    unfolding eq by simp
  have run: "main w =
           (if filter (\<lambda>j. job_id j \<notin> set S) L = [] then (Returned, print NoNewJobs w2)
            else (case print_new_jobs (filter (\<lambda>j. job_id j \<notin> set S) L)
                         (print (FoundNew (length (filter (\<lambda>j. job_id j \<notin> set S) L))) w2) of
                    (Inl x, w3) \<Rightarrow> (Raised x, w3)
                  | (Inr u, w3) \<Rightarrow>
                      (case send_email cfg (filter (\<lambda>j. job_id j \<notin> set S) L) w3 of
                         (Inl x, w4) \<Rightarrow> (Raised x, w4)
                       | (Inr u, w4) \<Rightarrow>
                           (Returned,
                            save_seen_jobs
                              (set_order w S @
                               map job_id (filter (\<lambda>j. job_id j \<notin> set S) L)) w4))))"
    using main_after_scrape [OF assms(1-3)] assms(4)
    by (simp add: eq notify_and_save_def)
  from eq sub mem run show ?thesis by blast
qed

lemma sample_config_file: "config_file sample_world = ConfigObject sample_config"
  by (simp add: sample_world_def)

lemma job_A_id: "job_id job_A = lit ''A''"
  by (simp add: job_A_def posting_def)

lemma job_B_id: "job_id job_B = lit ''B''"
  by (simp add: job_B_def posting_def)

lemma lit_A_B: "lit ''B'' \<noteq> lit ''A''"
  by (simp add: lit_def)

theorem new_jobs_are_the_unseen_in_order_witness:
  "find_new_jobs [lit ''A''] [job_A, job_B] = [job_B] \<and> subseq [job_B] [job_A, job_B]"
  using new_jobs_are_the_unseen_in_order
          [OF sample_config_file sample_seen sample_scrape, simplified]
  by (simp add: job_A_id job_B_id lit_A_B)

lemma main_config_fails:
  "config_file w = NoConfigFile \<Longrightarrow> main w = (Raised (SystemExit 1), print ConfigNotFound w)"
  "config_file w = ConfigNotJSON \<Longrightarrow> main w = (Raised JSONDecodeError, w)"
  by (simp_all add: main_def load_config_def)

lemma main_seen_not_json:
  "config_file w = ConfigObject cfg \<Longrightarrow> load_seen_jobs w = NotJSON \<Longrightarrow>
     main w = (Raised JSONDecodeError, w)"
  by (simp add: main_def load_config_def)


lemma main_no_jobs:
  "config_file w = ConfigObject cfg \<Longrightarrow> load_seen_jobs w \<noteq> NotJSON \<Longrightarrow>
     scrape_jobs w = (Inr [], w2) \<Longrightarrow> main w = (Returned, print NoJobsFound w2)"
  by (cases "load_seen_jobs w") (simp_all add: main_def load_config_def)

text \<open>
  C2. Whatever the seen-set file holds, when the scraped list is empty the run does not
  write the seen-set file and sends nothing to the mail relay; when the configuration and
  the seen set were loaded, the run ends right after the scrape with the one line
  "No jobs found", so it computes no difference and calls no notifier.
\<close>

theorem empty_scrape_leaves_store_untouched:
  assumes "fst (scrape_jobs w) = Inr []"
  shows "seen_file (snd (main w)) = seen_file w \<and>
         mail (snd (main w)) = mail w \<and>
         (\<forall>cfg S. config_file w = ConfigObject cfg \<and> load_seen_jobs w = Loaded S \<longrightarrow>
            main w = (Returned, print NoJobsFound (snd (scrape_jobs w))))"
proof -
  have scr: "scrape_jobs w = (Inr [], snd (scrape_jobs w))"
    using assms by (simp add: prod_eq_iff)
  have run: "main w = (Returned, print NoJobsFound (snd (scrape_jobs w)))"
    if "config_file w = ConfigObject cfg" "load_seen_jobs w \<noteq> NotJSON" for cfg
    using main_no_jobs [OF that scr] .
  have frame: "seen_file (snd (main w)) = seen_file w \<and> mail (snd (main w)) = mail w"
  proof (cases "config_file w")
    case NoConfigFile
    then show ?thesis by (simp add: main_config_fails print_frame)
  next
    case ConfigNotJSON
    then show ?thesis by (simp add: main_config_fails)
  next
    case (ConfigObject cfg)
    show ?thesis
    proof (cases "load_seen_jobs w = NotJSON")
      case True
      then show ?thesis using ConfigObject by (simp add: main_seen_not_json)
    next
      case False
      show ?thesis
        by (simp add: run [OF ConfigObject False] print_frame scrape_jobs_frame)
    qed
  qed
  from frame run show ?thesis by auto
qed

lemma failed_page_scrape:
  "scrape_jobs failed_page_world =
     (Inr [], failed_page_world\<lparr>stdout := [ScrapingStarted, ErrorScraping, FoundTotal 0]\<rparr>)"
  by (simp add: scrape_jobs_def failed_page_world_def sample_world_def print_def
      encodable_def lit_def)

theorem empty_scrape_leaves_store_untouched_witness:
  "fst (scrape_jobs failed_page_world) = Inr [] \<and>
   seen_file (snd (main failed_page_world)) = Some (json_dumps [lit ''A'']) \<and>
   mail (snd (main failed_page_world)) = []"
proof -
  have h: "fst (scrape_jobs failed_page_world) = Inr []"
    by (simp add: failed_page_scrape)
  show ?thesis
    using h empty_scrape_leaves_store_untouched [OF h]
    by (simp add: failed_page_world_def sample_world_def)
qed

text \<open>
  C9. When the scraped list is not empty and every scraped id is already in the seen set,
  the run ends with the one line "No new jobs found": it sends nothing to the mail
  relay and does not write the seen-set file.
\<close>

theorem nothing_new_leaves_store_untouched:
  assumes "config_file w = ConfigObject cfg"
    and "load_seen_jobs w = Loaded S"
    and "scrape_jobs w = (Inr L, w2)"
    and "L \<noteq> []"
    and "\<forall>j \<in> set L. job_id j \<in> set S"
  shows "main w = (Returned, print NoNewJobs w2) \<and>
         seen_file (snd (main w)) = seen_file w \<and>
         mail (snd (main w)) = mail w \<and>
         stdout (snd (main w)) = stdout w2 @ [NoNewJobs]"
proof -
  have "find_new_jobs S L = []"
    using assms(5) by (simp add: find_new_jobs_filter)
  then have run: "main w = (Returned, print NoNewJobs w2)"
    using main_after_scrape [OF assms(1-3)] assms(4) by (simp add: notify_and_save_def)
  have "w2 = snd (scrape_jobs w)"
    using assms(3) by simp
  then show ?thesis
    using run by (simp add: print_frame scrape_jobs_frame)
qed

lemma only_A_scrape:
  "scrape_jobs only_A_world =
     (Inr [job_A], only_A_world\<lparr>stdout := [ScrapingStarted, FoundTotal 1]\<rparr>)"
  by (simp add: scrape_jobs_def only_A_world_def sample_world_def sample_extract_A print_def)

lemma only_A_seen: "load_seen_jobs only_A_world = Loaded [lit ''A'']"
  using sample_seen by (simp add: load_seen_jobs_def only_A_world_def sample_world_def)

lemma only_A_config: "config_file only_A_world = ConfigObject sample_config"
  by (simp add: only_A_world_def sample_world_def)

theorem nothing_new_leaves_store_untouched_witness:
  "main only_A_world =
     (Returned, only_A_world\<lparr>stdout := [ScrapingStarted, FoundTotal 1, NoNewJobs]\<rparr>) \<and>
   seen_file (snd (main only_A_world)) = seen_file only_A_world \<and>
   mail (snd (main only_A_world)) = mail only_A_world"
  using nothing_new_leaves_store_untouched [OF only_A_config only_A_seen only_A_scrape]
  by (simp add: job_A_id print_def)


section \<open>Notification and persistence\<close>

lemma encodable_cong:
  "stdout_encodes w' = stdout_encodes w \<Longrightarrow> encodable w' t = encodable w t"
  by (simp add: encodable_def)

lemma send_email_no_password:
  assumes "config (lit ''email'') = Some recipient"
    and "mime_text_ok new_jobs"
    and "smtp_password w = None"
  shows "send_email config new_jobs w = (Inr (), print PasswordNotSet w)"
  using assms by (simp add: send_email_def)

lemma send_email_no_recipient:
  assumes "config (lit ''email'') = None"
  shows "send_email config new_jobs w = (Inl KeyError, w)"
  using assms by (simp add: send_email_def)

lemma send_email_body_fails:
  assumes "config (lit ''email'') = Some recipient"
    and "\<not> mime_text_ok new_jobs"
  shows "send_email config new_jobs w = (Inr (), print ErrorSendingEmail w)"
  using assms by (simp add: send_email_def)

lemma set_order_ok_distinct: "set_order_ok w \<Longrightarrow> distinct (set_order w xs)"
  by (simp add: set_order_ok_def)

lemma set_order_ok_set: "set_order_ok w \<Longrightarrow> set (set_order w xs) = set xs"
  by (simp add: set_order_ok_def)

lemma new_ids_unseen: "set (map job_id (find_new_jobs S L)) \<inter> set S = {}"
  by (auto simp: find_new_jobs_filter)

lemma persisted_distinct_iff:
  assumes "set_order_ok w"
  shows "distinct (set_order w S @ map job_id (find_new_jobs S L)) \<longleftrightarrow>
         distinct (map job_id (find_new_jobs S L))"
  using assms new_ids_unseen [of S L]
  by (simp add: set_order_ok_distinct set_order_ok_set Int_commute)

lemma announce_all:
  assumes "\<forall>job \<in> set new_jobs. encodable w2 (job_title job @ job_pay job)"
  shows "print_new_jobs new_jobs (print (FoundNew (length new_jobs)) w2) =
           (Inr (), announced new_jobs w2)"
proof -
  have "\<forall>job \<in> set new_jobs.
          encodable (print (FoundNew (length new_jobs)) w2) (job_title job @ job_pay job)"
    using assms by simp
  then show ?thesis
    by (simp add: print_new_jobs_all announced_def print_def)
qed

lemma announced_frame:
  "seen_file (announced js w) = seen_file w"
  "mail (announced js w) = mail w"
  "smtp_password (announced js w) = smtp_password w"
  "smtp (announced js w) = smtp w"
  "stdout_encodes (announced js w) = stdout_encodes w"
  by (simp_all add: announced_def)

lemma main_persists:
  assumes "config_file w = ConfigObject cfg"
    and "load_seen_jobs w = Loaded S"
    and "scrape_jobs w = (Inr L, w2)"
    and "find_new_jobs S L \<noteq> []"
    and "fst (main w) = Returned"
  shows "seen_file (snd (main w)) =
           Some (json_dumps (set_order w S @ map job_id (find_new_jobs S L)))"
proof -
  have "L \<noteq> []"
    using assms(4) by (auto simp: find_new_jobs_filter)
  then show ?thesis
    using main_after_scrape [OF assms(1-3)] assms(4,5)
    by (auto simp: notify_and_save_def save_seen_jobs_def split: prod.splits sum.splits)
qed



lemma load_after_save:
  assumes "seen_file w' = Some (json_dumps ids)"
    and "\<forall>s \<in> set ids. json_safe s"
  shows "load_seen_jobs w' = Loaded ids"
  using assms json_loads_dumps [of ids] by (simp add: load_seen_jobs_def)

lemma persisted_safe:
  assumes "set_order_ok w"
    and "\<forall>s \<in> set S. json_safe s"
    and "\<forall>j \<in> set new_jobs. json_safe (job_id j)"
  shows "\<forall>s \<in> set (set_order w S @ map job_id new_jobs). json_safe s"
  using assms by (auto simp: set_order_ok_set)

lemma main_without_password:
  assumes "config_file w = ConfigObject cfg"
    and "cfg (lit ''email'') = Some recipient"
    and "load_seen_jobs w = Loaded S"
    and "scrape_jobs w = (Inr L, w2)"
    and "find_new_jobs S L \<noteq> []"
    and "smtp_password w = None"
    and "\<forall>j \<in> set (find_new_jobs S L). encodable w (job_title j @ job_pay j)"
    and "mime_text_ok (find_new_jobs S L)"
  shows "main w =
     (Returned,
      save_seen_jobs (set_order w S @ map job_id (find_new_jobs S L))
        (print PasswordNotSet (announced (find_new_jobs S L) w2)))"
proof -
  let ?new = "find_new_jobs S L"
  have w2: "w2 = snd (scrape_jobs w)"
    using assms(4) by simp
  then have "\<forall>j \<in> set ?new. encodable w2 (job_title j @ job_pay j)"
    using assms(7) encodable_cong [of w2 w] by (simp add: scrape_jobs_frame)
  then have ann: "print_new_jobs ?new (print (FoundNew (length ?new)) w2) =
      (Inr (), announced ?new w2)"
    by (rule announce_all)
  have "smtp_password (announced ?new w2) = None"
    using assms(6) w2 by (simp add: announced_frame scrape_jobs_frame)
  then have snd: "send_email cfg ?new (announced ?new w2) =
      (Inr (), print PasswordNotSet (announced ?new w2))"
    using send_email_no_password [where config = cfg, OF assms(2,8)] by simp
  have "L \<noteq> []"
    using assms(5) by (auto simp: find_new_jobs_filter)
  then show ?thesis
    using main_after_scrape [OF assms(1,3,4)] assms(5)
    by (simp add: notify_and_save_def ann snd)
qed


lemma sample_set_order_ok: "set_order_ok sample_world"
  by (simp add: set_order_ok_def sample_world_def)

lemma sample_recipient: "sample_config (lit ''email'') = Some (lit ''me@example.org'')"
  by (simp add: sample_config_def)

lemma sample_new: "find_new_jobs [lit ''A''] [job_A, job_B] = [job_B]"
  by (simp add: find_new_jobs_filter job_A_id job_B_id lit_A_B)

lemma sample_password: "smtp_password sample_world = None"
  by (simp add: sample_world_def)

lemma sample_encodes: "stdout_encodes sample_world = (\<lambda>c. \<not> is_surrogate c)"
  by (simp add: sample_world_def)

lemma job_B_printable: "encodable sample_world (job_title job_B @ job_pay job_B)"
  by (simp add: encodable_def job_B_def posting_def lit_def)

lemma job_B_body: "mime_text_ok [job_B]"
  by (simp add: mime_text_ok_def body_texts_def job_B_def posting_def lit_def is_surrogate_def)

lemma safe_A: "json_safe (lit ''A'')" and safe_B: "json_safe (lit ''B'')"
  by (simp_all add: json_safe_def lit_def)

lemma sample_set_order: "set_order sample_world xs = remdups xs"
  by (simp add: sample_world_def)

text \<open>The three runs that show what the claim leaves out.\<close>

lemma no_email_main:
  "main no_email_world =
     (Raised KeyError,
      no_email_world\<lparr>stdout := [ScrapingStarted, FoundTotal 2, FoundNew 1,
                                   NewJobLine (job_title job_B) (job_pay job_B)]\<rparr>)"
proof -
  have cfg: "config_file no_email_world = ConfigObject Map.empty"
    by (simp add: no_email_world_def)
  have seen: "load_seen_jobs no_email_world = Loaded [lit ''A'']"
    using sample_seen by (simp add: load_seen_jobs_def no_email_world_def sample_world_def)
  have scr: "scrape_jobs no_email_world =
      (Inr [job_A, job_B], no_email_world\<lparr>stdout := [ScrapingStarted, FoundTotal 2]\<rparr>)"
    by (simp add: scrape_jobs_def no_email_world_def sample_world_def sample_extract_A
        sample_extract_B print_def)
  have enc: "encodable (no_email_world\<lparr>stdout := xs\<rparr>) (job_title job_B @ job_pay job_B)" for xs
    using job_B_printable by (simp add: encodable_def no_email_world_def)
  show ?thesis
    using main_after_scrape [OF cfg seen scr]
    by (simp add: sample_new notify_and_save_def print_def enc send_email_no_recipient)
qed

lemma lone_title_main:
  "main lone_title_world =
     (Raised UnicodeEncodeError,
      lone_title_world\<lparr>stdout := [ScrapingStarted, FoundTotal 1, FoundNew 1]\<rparr>)"
proof -
  have cfg: "config_file lone_title_world = ConfigObject sample_config"
    by (simp add: lone_title_world_def sample_world_def)
  have seen: "load_seen_jobs lone_title_world = Loaded [lit ''A'']"
    using sample_seen by (simp add: load_seen_jobs_def lone_title_world_def sample_world_def)
  have ex: "extract_job (listing (lit ''/jobs/list_B'') [55357]) = Inr job_lone_title"
    by (simp add: extract_job_def listing_def derive_job_id_def marker_def lit_def py_split_def
        py_index_def text_or_def py_strip_def py_isspace_def job_lone_title_def posting_def)
  have scr: "scrape_jobs lone_title_world =
      (Inr [job_lone_title], lone_title_world\<lparr>stdout := [ScrapingStarted, FoundTotal 1]\<rparr>)"
    by (simp add: scrape_jobs_def lone_title_world_def sample_world_def ex print_def)
  have new: "find_new_jobs [lit ''A''] [job_lone_title] = [job_lone_title]"
    by (simp add: find_new_jobs_filter job_lone_title_def posting_def lit_def)
  have enc: "\<not> encodable (lone_title_world\<lparr>stdout := xs\<rparr>)
                 (job_title job_lone_title @ job_pay job_lone_title)" for xs
    by (simp add: encodable_def lone_title_world_def sample_world_def job_lone_title_def
        posting_def is_surrogate_def)
  show ?thesis
    using main_after_scrape [OF cfg seen scr]
    by (simp add: new notify_and_save_def print_def enc)
qed

lemma lone_hired_main:
  "main lone_hired_world =
     (Returned,
      lone_hired_world
        \<lparr>seen_file := Some (json_dumps [lit ''A'', lit ''B'']),
         stdout := [ScrapingStarted, FoundTotal 1, FoundNew 1,
                    NewJobLine (job_title job_B) (job_pay job_B), ErrorSendingEmail]\<rparr>)"
proof -
  have cfg: "config_file lone_hired_world = ConfigObject sample_config"
    by (simp add: lone_hired_world_def sample_world_def)
  have seen: "load_seen_jobs lone_hired_world = Loaded [lit ''A'']"
    using sample_seen by (simp add: load_seen_jobs_def lone_hired_world_def sample_world_def)
  have ex: "extract_job ((listing (lit ''/jobs/list_B'') (lit '' Data Labeler ''))
                           \<lparr>el_hired := Returns (Some [55357])\<rparr>) = Inr job_lone_hired"
    by (simp add: extract_job_def listing_def derive_job_id_def marker_def lit_def py_split_def
        py_index_def text_or_def py_strip_def py_isspace_def job_lone_hired_def job_B_def
        posting_def)
  have scr: "scrape_jobs lone_hired_world =
      (Inr [job_lone_hired], lone_hired_world\<lparr>stdout := [ScrapingStarted, FoundTotal 1]\<rparr>)"
    by (simp add: scrape_jobs_def lone_hired_world_def sample_world_def ex print_def)
  have new: "find_new_jobs [lit ''A''] [job_lone_hired] = [job_lone_hired]"
    by (simp add: find_new_jobs_filter job_lone_hired_def job_B_id lit_A_B)
  have enc: "encodable (lone_hired_world\<lparr>stdout := xs\<rparr>)
               (job_title job_lone_hired @ job_pay job_lone_hired)" for xs
    using job_B_printable by (simp add: encodable_def lone_hired_world_def job_lone_hired_def)
  have body: "\<not> mime_text_ok [job_lone_hired]"
    by (simp add: mime_text_ok_def body_texts_def job_lone_hired_def is_surrogate_def)
  have "main lone_hired_world =
      (Returned,
       save_seen_jobs (set_order lone_hired_world [lit ''A''] @ map job_id [job_lone_hired])
         (print ErrorSendingEmail
            (print (NewJobLine (job_title job_lone_hired) (job_pay job_lone_hired))
               (print (FoundNew 1)
                  (lone_hired_world\<lparr>stdout := [ScrapingStarted, FoundTotal 1]\<rparr>)))))"
    using main_after_scrape [OF cfg seen scr]
    by (simp add: new notify_and_save_def print_def enc
        send_email_body_fails [where config = sample_config, OF sample_recipient body])
  then show ?thesis
    by (simp add: save_seen_jobs_def print_def job_lone_hired_def job_B_id
        lone_hired_world_def sample_world_def)
qed

text \<open>
  C3 as stated fails. In each of these three runs \<open>SMTP_PASSWORD\<close> is absent and one
  new job is found. When the configuration has no \<open>email\<close> entry, line 114 raises
  \<open>KeyError\<close> before the password is looked at: the run fails and the seen-set file is
  not written. When the title of the new job is a lone surrogate, the \<open>print\<close> of line
  223 raises \<open>UnicodeEncodeError\<close>: the run fails and the seen-set file is not written.
  When the hired text of the new job is a lone surrogate, \<open>MIMEText\<close> raises at line 186,
  before the password is looked at: the run returns, but it prints "Error sending
  email" and never the warning.
\<close>

theorem missing_password_counterexample:
  "smtp_password no_email_world = None \<and>
   fst (main no_email_world) = Raised KeyError \<and>
   seen_file (snd (main no_email_world)) = seen_file no_email_world \<and>
   smtp_password lone_title_world = None \<and>
   fst (main lone_title_world) = Raised UnicodeEncodeError \<and>
   seen_file (snd (main lone_title_world)) = seen_file lone_title_world \<and>
   smtp_password lone_hired_world = None \<and>
   fst (main lone_hired_world) = Returned \<and>
   PasswordNotSet \<notin> set (stdout (snd (main lone_hired_world))) \<and>
   last (stdout (snd (main lone_hired_world))) = ErrorSendingEmail"
  by (simp add: no_email_main lone_title_main lone_hired_main)
     (simp add: no_email_world_def lone_title_world_def lone_hired_world_def sample_world_def)

text \<open>
  C3 (amended). In a run that finds at least one new job while \<open>SMTP_PASSWORD\<close> is absent,
  if the configuration has an \<open>email\<close> entry, the standard output can encode the title
  and the pay of every new job, no text of a new job holds a surrogate code point, and
  the identifiers, old and new, are well-formed strings, then nothing is sent to the
  mail relay, the warning is the last line printed, the run returns with exit status 0,
  and the seen-set file afterwards holds the old identifiers followed by the
  identifiers of all the new jobs.
\<close>

theorem missing_password_skips_mail_and_persists:
  assumes "set_order_ok w"
    and "config_file w = ConfigObject cfg"
    and "cfg (lit ''email'') = Some recipient"
    and "load_seen_jobs w = Loaded S"
    and "scrape_jobs w = (Inr L, w2)"
    and "find_new_jobs S L \<noteq> []"
    and "smtp_password w = None"
    and "\<forall>j \<in> set (find_new_jobs S L). encodable w (job_title j @ job_pay j)"
    and "mime_text_ok (find_new_jobs S L)"
    and "\<forall>s \<in> set S. json_safe s"
    and "\<forall>j \<in> set (find_new_jobs S L). json_safe (job_id j)"
  shows "fst (main w) = Returned \<and>
         exit_status (fst (main w)) = 0 \<and>
         mail (snd (main w)) = mail w \<and>
         last (stdout (snd (main w))) = PasswordNotSet \<and>
         load_seen_jobs (snd (main w)) =
           Loaded (set_order w S @ map job_id (find_new_jobs S L)) \<and>
         set (set_order w S @ map job_id (find_new_jobs S L)) =
           set S \<union> job_id ` set (find_new_jobs S L)"
proof -
  let ?new = "find_new_jobs S L"
  let ?ids = "set_order w S @ map job_id ?new"
  have w2: "w2 = snd (scrape_jobs w)"
    using assms(5) by simp
  have run: "main w =
      (Returned, save_seen_jobs ?ids (print PasswordNotSet (announced ?new w2)))"
    by (rule main_without_password [OF assms(2-9)])
  have "mail (snd (main w)) = mail w"
    using run w2
    by (simp add: save_seen_jobs_def print_frame announced_frame scrape_jobs_frame)
  moreover have "last (stdout (snd (main w))) = PasswordNotSet"
    using run by (simp add: save_seen_jobs_def print_frame)
  moreover have "seen_file (snd (main w)) = Some (json_dumps ?ids)"
    using run by (simp add: save_seen_jobs_def)
  then have "load_seen_jobs (snd (main w)) = Loaded ?ids"
    using persisted_safe [OF assms(1,10,11)] by (rule load_after_save)
  moreover have "set ?ids = set S \<union> job_id ` set ?new"
    using assms(1) by (simp add: set_order_ok_set)
  ultimately show ?thesis
    using run by (simp add: exit_status_def)
qed

theorem missing_password_skips_mail_and_persists_witness:
  "fst (main sample_world) = Returned \<and>
   mail (snd (main sample_world)) = [] \<and>
   last (stdout (snd (main sample_world))) = PasswordNotSet \<and>
   load_seen_jobs (snd (main sample_world)) = Loaded [lit ''A'', lit ''B'']"
  using missing_password_skips_mail_and_persists
          [OF sample_set_order_ok sample_config_file sample_recipient sample_seen sample_scrape _
              sample_password]
  by (simp add: sample_new job_B_id job_B_printable job_B_body safe_A safe_B sample_set_order
      lit_A_B)
     (simp add: sample_world_def)


lemma twice_B_scrape:
  "scrape_jobs twice_B_world =
     (Inr [job_B, job_B], twice_B_world\<lparr>stdout := [ScrapingStarted, FoundTotal 2]\<rparr>)"
  by (simp add: scrape_jobs_def twice_B_world_def sample_world_def sample_extract_B print_def)

lemma twice_B_config: "config_file twice_B_world = ConfigObject sample_config"
  by (simp add: twice_B_world_def sample_world_def)

lemma twice_B_seen: "load_seen_jobs twice_B_world = Loaded []"
  by (simp add: load_seen_jobs_def twice_B_world_def)

lemma twice_B_main:
  "fst (main twice_B_world) = Returned \<and>
   seen_file (snd (main twice_B_world)) = Some (json_dumps [lit ''B'', lit ''B''])"
proof -
  have new: "find_new_jobs [] [job_B, job_B] = [job_B, job_B]"
    by (simp add: find_new_jobs_filter)
  have pw: "smtp_password twice_B_world = None"
    by (simp add: twice_B_world_def sample_world_def)
  have enc: "encodable twice_B_world (job_title job_B @ job_pay job_B)"
    using job_B_printable by (simp add: encodable_def twice_B_world_def)
  have body: "mime_text_ok [job_B, job_B]"
    using job_B_body by (simp add: mime_text_ok_def body_texts_def)
  have "main twice_B_world =
     (Returned,
      save_seen_jobs (set_order twice_B_world [] @ map job_id [job_B, job_B])
        (print PasswordNotSet
           (announced [job_B, job_B]
              (twice_B_world\<lparr>stdout := [ScrapingStarted, FoundTotal 2]\<rparr>))))"
    using main_without_password
            [OF twice_B_config sample_recipient twice_B_seen twice_B_scrape _ pw]
    by (simp add: new enc body)
  then show ?thesis
    by (simp add: job_B_id save_seen_jobs_def twice_B_world_def sample_world_def)
qed

lemma pair_ids_scrape:
  "scrape_jobs pair_ids_world =
     (Inr [job_first, job_second],
      pair_ids_world\<lparr>stdout := [ScrapingStarted, FoundTotal 2]\<rparr>)"
proof -
  have "extract_job (listing (lit ''/jobs/list_'' @ [55357, 56832]) (lit ''First'')) =
          Inr job_first"
    by (simp add: extract_job_def listing_def derive_job_id_def marker_def lit_def py_split_def
        py_index_def text_or_def py_strip_def py_isspace_def job_first_def posting_def)
  moreover have "extract_job (listing (lit ''/jobs/list_'' @ [128512]) (lit ''Second'')) =
          Inr job_second"
    by (simp add: extract_job_def listing_def derive_job_id_def marker_def lit_def py_split_def
        py_index_def text_or_def py_strip_def py_isspace_def job_second_def posting_def)
  ultimately show ?thesis
    by (simp add: scrape_jobs_def pair_ids_world_def sample_world_def print_def)
qed

lemma pair_ids_main:
  "fst (main pair_ids_world) = Returned \<and>
   seen_file (snd (main pair_ids_world)) = Some (json_dumps [[55357, 56832], [128512]])"
proof -
  have cfg: "config_file pair_ids_world = ConfigObject sample_config"
    by (simp add: pair_ids_world_def sample_world_def)
  have seen: "load_seen_jobs pair_ids_world = Loaded []"
    by (simp add: load_seen_jobs_def pair_ids_world_def)
  have new: "find_new_jobs [] [job_first, job_second] = [job_first, job_second]"
    by (simp add: find_new_jobs_filter)
  have enc: "encodable (pair_ids_world\<lparr>stdout := xs\<rparr>) (job_title job_first @ job_pay job_first)"
    "encodable (pair_ids_world\<lparr>stdout := xs\<rparr>) (job_title job_second @ job_pay job_second)"
    for xs
    by (simp_all add: encodable_def job_first_def job_second_def posting_def lit_def)
  have body: "\<not> mime_text_ok [job_first, job_second]"
    by (simp add: mime_text_ok_def body_texts_def job_first_def posting_def is_surrogate_def)
  have "fst (main pair_ids_world) = Returned \<and>
        seen_file (snd (main pair_ids_world)) =
          Some (json_dumps (set_order pair_ids_world [] @ map job_id [job_first, job_second]))"
    using main_after_scrape [OF cfg seen pair_ids_scrape]
    by (simp add: new notify_and_save_def print_def enc save_seen_jobs_def
        send_email_body_fails [where config = sample_config, OF sample_recipient body])
  then show ?thesis
    by (simp add: job_first_def job_second_def posting_def pair_ids_world_def sample_world_def)
qed

lemma loads_B_B: "json_loads (json_dumps [lit ''B'', lit ''B'']) = Loaded [lit ''B'', lit ''B'']"
  by (rule json_loads_dumps) (simp add: safe_B)

lemma loads_pair:
  "json_loads (json_dumps [[55357, 56832], [128512]]) = Loaded [[128512], [128512]]"
  by (simp add: json_dumps_def json_loads_def lit_def
      encode_basestring_ascii_def escape_char_def u_escape_def hex4_def hex_digit_def
      decode_uXXXX_def hex_val_def is_ws_def cons_result_def)

text \<open>
  C4 as stated fails. A page that lists the unseen job \<open>B\<close> twice leaves a seen-set file
  that is read back as \<open>["B", "B"]\<close>. And distinct ids do not help when they are not
  well-formed strings: of two new jobs, one with the id made of the two surrogates
  \<open>U+D83D U+DE00\<close> and one with the id \<open>U+1F600\<close>, the file is read back as the same
  id twice.
\<close>

theorem persisted_ids_repeat_counterexample:
  "fst (main twice_B_world) = Returned \<and>
   load_seen_jobs (snd (main twice_B_world)) = Loaded [lit ''B'', lit ''B''] \<and>
   \<not> distinct [lit ''B'', lit ''B''] \<and>
   fst (main pair_ids_world) = Returned \<and>
   fst (scrape_jobs pair_ids_world) = Inr [job_first, job_second] \<and>
   distinct (map job_id [job_first, job_second]) \<and>
   load_seen_jobs (snd (main pair_ids_world)) = Loaded [[128512], [128512]] \<and>
   \<not> distinct [[128512 :: nat], [128512]]"
  by (simp add: twice_B_main pair_ids_main pair_ids_scrape load_seen_jobs_def loads_B_B
      loads_pair job_first_def job_second_def posting_def)

text \<open>
  C4 (amended). Whenever a run returns after finding new jobs, and the identifiers, old
  and new, are well-formed strings, the seen-set file afterwards holds the prior
  identifiers once each, followed by the identifier of every new job in the order of
  the scraped list; so the persisted list is free of duplicates exactly when the new
  jobs have pairwise distinct ids.
\<close>

theorem persisted_ids_distinct:
  assumes "set_order_ok w"
    and "config_file w = ConfigObject cfg"
    and "load_seen_jobs w = Loaded S"
    and "scrape_jobs w = (Inr L, w2)"
    and "find_new_jobs S L \<noteq> []"
    and "fst (main w) = Returned"
    and "\<forall>s \<in> set S. json_safe s"
    and "\<forall>j \<in> set (find_new_jobs S L). json_safe (job_id j)"
  shows "load_seen_jobs (snd (main w)) =
           Loaded (set_order w S @ map job_id (find_new_jobs S L)) \<and>
         distinct (set_order w S) \<and>
         set (set_order w S) = set S \<and>
         (distinct (set_order w S @ map job_id (find_new_jobs S L)) \<longleftrightarrow>
          distinct (map job_id (find_new_jobs S L)))"
  using load_after_save [OF main_persists [OF assms(2-6)] persisted_safe [OF assms(1,7,8)]]
    persisted_distinct_iff [OF assms(1)] assms(1)
  by (simp add: set_order_ok_distinct set_order_ok_set)

lemma sample_main_returns: "fst (main sample_world) = Returned"
  using main_without_password
          [OF sample_config_file sample_recipient sample_seen sample_scrape _ sample_password]
  by (simp add: sample_new job_B_printable job_B_body)

theorem persisted_ids_distinct_witness:
  "load_seen_jobs (snd (main sample_world)) = Loaded [lit ''A'', lit ''B''] \<and>
   distinct [lit ''A'', lit ''B'']"
  using persisted_ids_distinct
          [OF sample_set_order_ok sample_config_file sample_seen sample_scrape _
              sample_main_returns]
  by (simp add: sample_new job_B_id sample_set_order safe_A safe_B lit_A_B)






section \<open>Delivery defaults and the exit status\<close>
























section \<open>The job id of a link target\<close>

lemma py_contains_short: "length s < length sep \<Longrightarrow> \<not> py_contains sep s"
  by (induction s) auto

lemma py_contains_at: "sep \<noteq> [] \<Longrightarrow> py_contains sep (pre @ sep @ post)"
proof (induction pre)
  case Nil
  then obtain x xs where "sep = x # xs" by (cases sep) auto
  then show ?case by simp
next
  case (Cons p pre)
  then show ?case by simp
qed

lemma take_before_end:
  assumes "sep \<noteq> []"
  shows "take (length sep) ((p # ps) @ sep @ post) = take (length sep) ((p # ps) @ butlast sep)"
proof -
  have "sep @ post = butlast sep @ (last sep # post)"
    using assms by simp
  then have "(p # ps) @ sep @ post = ((p # ps) @ butlast sep) @ (last sep # post)"
    by simp
  moreover have "length sep \<le> length ((p # ps) @ butlast sep)"
    by simp
  ultimately show ?thesis
    by (metis append.right_neutral diff_is_0_eq take_0 take_append)
qed

lemma py_split_from_none:
  "sep \<noteq> [] \<Longrightarrow> \<not> py_contains sep s \<Longrightarrow> py_split_from sep acc s = [rev acc @ s]"
  by (induction s arbitrary: acc) auto

lemma py_split_from_first:
  assumes "sep \<noteq> []"
    and "\<not> py_contains sep (pre @ butlast sep)"
  shows "py_split_from sep acc (pre @ sep @ post) = (rev acc @ pre) # py_split_from sep [] post"
  using assms(2)
proof (induction pre arbitrary: acc)
  case Nil
  obtain x xs where sep: "sep = x # xs"
    using assms(1) by (cases sep) auto
  have "py_split_from sep acc (x # (xs @ post)) =
          rev acc # py_split_from sep [] (drop (length sep) (x # (xs @ post)))"
    using assms(1) by (simp add: sep)
  then show ?case by (simp add: sep)
next
  case (Cons p ps)
  have "take (length sep) ((p # ps) @ butlast sep) \<noteq> sep"
    and rest: "\<not> py_contains sep (ps @ butlast sep)"
    using Cons.prems by auto
  then have "take (length sep) (p # (ps @ sep @ post)) \<noteq> sep"
    using take_before_end [OF assms(1), of p ps post] by simp
  then have "py_split_from sep acc (p # (ps @ sep @ post)) =
               py_split_from sep (p # acc) (ps @ sep @ post)"
    by simp
  then show ?case
    using Cons.IH [OF rest, of "p # acc"] by simp
qed

lemma py_contains_first:
  assumes "sep \<noteq> []"
  shows "py_contains sep s \<Longrightarrow>
           \<exists>pre post. s = pre @ sep @ post \<and> \<not> py_contains sep (pre @ butlast sep)"
proof (induction s)
  case Nil
  then show ?case using assms by simp
next
  case (Cons x xs)
  show ?case
  proof (cases "take (length sep) (x # xs) = sep")
    case True
    then have "x # xs = [] @ sep @ drop (length sep) (x # xs)"
      by (metis append_Nil append_take_drop_id)
    moreover have "\<not> py_contains sep ([] @ butlast sep)"
      using assms by (simp add: py_contains_short)
    ultimately show ?thesis by blast
  next
    case False
    then have "py_contains sep xs"
      using Cons.prems by simp
    then obtain pre post where xs: "xs = pre @ sep @ post"
      and first: "\<not> py_contains sep (pre @ butlast sep)"
      using Cons.IH by blast
    have "take (length sep) ((x # pre) @ butlast sep) \<noteq> sep"
      using False take_before_end [OF assms, of x pre post] by (simp add: xs)
    then have "\<not> py_contains sep ((x # pre) @ butlast sep)"
      using first by simp
    moreover have "x # xs = (x # pre) @ sep @ post"
      by (simp add: xs)
    ultimately show ?thesis by blast
  qed
qed

lemma py_split_from_nonempty: "py_split_from sep acc s \<noteq> []"
  by (induction sep acc s rule: py_split_from.induct) auto

lemma marker_nonempty: "marker \<noteq> []"
  by (simp add: marker_def lit_def)

lemma derive_job_id_second_piece:
  assumes "href = pre @ marker @ post"
    and "\<not> py_contains marker (pre @ butlast marker)"
  shows "derive_job_id href = Inr (hd (py_split_from marker [] post))"
proof -
  have "py_contains marker href"
    using assms(1) py_contains_at [OF marker_nonempty] by simp
  moreover have "py_split_from marker [] href = pre # py_split_from marker [] post"
    using py_split_from_first [OF marker_nonempty assms(2), of "[]" post] assms(1) by simp
  moreover have "py_split_from marker [] post \<noteq> []"
    by (rule py_split_from_nonempty)
  ultimately show ?thesis
    by (cases "py_split_from marker [] post")
       (simp_all add: derive_job_id_def py_split_def py_index_def marker_nonempty)
qed

theorem job_id_after_marker_counterexample:
  "lit ''/jobs/list_a_list_b'' = lit ''/jobs/'' @ marker @ lit ''a_list_b'' \<and>
   \<not> py_contains marker (lit ''/jobs/'') \<and>
   derive_job_id (lit ''/jobs/list_a_list_b'') = Inr (lit ''a_'') \<and>
   lit ''a_'' \<noteq> lit ''a_list_b''"
  by (simp add: derive_job_id_def marker_def lit_def py_split_def py_index_def)

text \<open>
  C8 (amended). A link target in which the marker \<open>list_\<close> does not occur is itself the
  job id. When the marker occurs, the id is the text between its first occurrence and
  its next occurrence after that; when the marker occurs only once, this is the whole
  text following the marker. A link target that is a string always yields an id.
\<close>

theorem job_id_between_markers:
  "(\<not> py_contains marker href \<longrightarrow> derive_job_id href = Inr href) \<and>
   (\<forall>pre post.
      href = pre @ marker @ post \<and> \<not> py_contains marker (pre @ butlast marker) \<and>
      \<not> py_contains marker post \<longrightarrow>
      derive_job_id href = Inr post) \<and>
   (\<forall>pre mid rest.
      href = pre @ marker @ mid @ marker @ rest \<and>
      \<not> py_contains marker (pre @ butlast marker) \<and>
      \<not> py_contains marker (mid @ butlast marker) \<longrightarrow>
      derive_job_id href = Inr mid) \<and>
   (\<exists>jid. derive_job_id href = Inr jid)"
proof -
  have absent: "derive_job_id href = Inr href" if "\<not> py_contains marker href"
    using that by (simp add: derive_job_id_def)
  have once: "derive_job_id href = Inr post"
    if "href = pre @ marker @ post" "\<not> py_contains marker (pre @ butlast marker)"
       "\<not> py_contains marker post" for pre post
    using derive_job_id_second_piece [OF that(1,2)]
      py_split_from_none [OF marker_nonempty that(3), of "[]"]
    by simp
  have again: "derive_job_id href = Inr mid"
    if "href = pre @ marker @ mid @ marker @ rest" "\<not> py_contains marker (pre @ butlast marker)"
       "\<not> py_contains marker (mid @ butlast marker)" for pre mid rest
    using derive_job_id_second_piece [OF that(1,2)]
      py_split_from_first [OF marker_nonempty that(3), of "[]" rest]
    by simp
  have total: "\<exists>jid. derive_job_id href = Inr jid"
  proof (cases "py_contains marker href")
    case False
    then show ?thesis using absent by blast
  next
    case True
    then obtain pre post where "href = pre @ marker @ post"
      and "\<not> py_contains marker (pre @ butlast marker)"
      using py_contains_first [OF marker_nonempty] by blast
    then show ?thesis using derive_job_id_second_piece by blast
  qed
  from absent once again total show ?thesis by blast
qed

theorem job_id_between_markers_witness:
  "derive_job_id (lit ''/jobs/list_B'') = Inr (lit ''B'') \<and>
   derive_job_id (lit ''/jobs/list_a_list_b'') = Inr (lit ''a_'') \<and>
   derive_job_id (lit ''/jobs/42'') = Inr (lit ''/jobs/42'')"
proof -
  have m: "marker = lit ''list_''"
    by (simp add: marker_def)
  have "lit ''/jobs/list_B'' = lit ''/jobs/'' @ marker @ lit ''B'' \<and>
        \<not> py_contains marker (lit ''/jobs/'' @ butlast marker) \<and>
        \<not> py_contains marker (lit ''B'')"
    by (simp add: m lit_def)
  then have one: "derive_job_id (lit ''/jobs/list_B'') = Inr (lit ''B'')"
    using job_id_between_markers [of "lit ''/jobs/list_B''"] by blast
  have "lit ''/jobs/list_a_list_b'' = lit ''/jobs/'' @ marker @ lit ''a_'' @ marker @ lit ''b'' \<and>
        \<not> py_contains marker (lit ''/jobs/'' @ butlast marker) \<and>
        \<not> py_contains marker (lit ''a_'' @ butlast marker)"
    by (simp add: m lit_def)
  then have two: "derive_job_id (lit ''/jobs/list_a_list_b'') = Inr (lit ''a_'')"
    using job_id_between_markers [of "lit ''/jobs/list_a_list_b''"] by blast
  have "\<not> py_contains marker (lit ''/jobs/42'')"
    by (simp add: m lit_def)
  then have three: "derive_job_id (lit ''/jobs/42'') = Inr (lit ''/jobs/42'')"
    using job_id_between_markers [of "lit ''/jobs/42''"] by blast
  from one two three show ?thesis by simp
qed


end
